theory Spec2Isabelle
  imports Complex_Main
begin

section \<open>JavaScript values used by main.js\<close>

text \<open>
  The file main.js exists in three versions. The first one only spins a cube and has no
  orbit playback. The second one (constants \<open>FRAME_SPEED\<close>, \<open>planetPositions\<close>,
  \<open>frameIndex\<close>) is called the frame-index player below, the third one (\<open>orbitLines\<close>,
  \<open>t\<close>, \<open>speed\<close>, \<open>orbitsVisible\<close>) the orbit-line player. Names of the orbit-line
  player carry the suffix 2 where they would clash with the frame-index player.

  Numbers are real numbers. The counters of the players (\<open>frameIndex\<close>, \<open>t\<close>, \<open>speed\<close>)
  and the rotations are advanced as the code advances them, by sums and products rounded
  to a double (\<open>double\<close> below). The coordinates of a position are kept exact: the
  rounding of a scaled coordinate and of the 32-bit vertex buffers of the rendering
  library is outside the model, and so are the infinities that replace a number of
  magnitude \<open>2^1024\<close> or more. \<open>NaN\<close> stands for every value that is not a finite number
  after conversion: NaN itself, \<open>undefined\<close> read from an array position that does not
  exist, and the result of a division by zero.
\<close>

datatype num = NaN | Num real

type_synonym vec3 = "num \<times> num \<times> num"

datatype error = NetworkError | SyntaxError | TypeError

text \<open>
  An element of a position file, at the depth the code inspects it: \<open>undefined\<close> (what an
  array read out of range gives), \<open>null\<close>, or a record whose \<open>pos\<close> field is absent
  (\<open>None\<close>) or an array of numbers.
\<close>

datatype entry = Undefined | Null | Entry "real list option"

text \<open>The remainder \<open>a % b\<close> on integral numbers: sign of the dividend, NaN for \<open>b = 0\<close>.\<close>

definition js_rem :: "int \<Rightarrow> int \<Rightarrow> int option" where
  "js_rem a b = (if b = 0 then None else Some (sgn a * (\<bar>a\<bar> mod \<bar>b\<bar>)))"

text \<open>The remainder \<open>x % y\<close> on numbers: \<open>x - y * trunc (x / y)\<close>, NaN for \<open>y = 0\<close>.\<close>

definition trunc :: "real \<Rightarrow> int" where
  "trunc x = (if 0 \<le> x then \<lfloor>x\<rfloor> else \<lceil>x\<rceil>)"

definition js_fmod :: "real \<Rightarrow> real \<Rightarrow> real option" where
  "js_fmod x y = (if y = 0 then None else Some (x - y * of_int (trunc (x / y))))"

text \<open>
  Rounding to a double, to nearest with ties to the even mantissa: a number with binary
  exponent \<open>e\<close> (at least \<open>-1022\<close>, the exponent of the subnormal numbers) is rounded
  to a multiple of \<open>2^(e - 52)\<close>. The result of \<open>x + y\<close> in the code is
  \<open>double (x + y)\<close>, and a decimal literal such as \<open>0.1\<close> is \<open>double (1 / 10)\<close>.
\<close>

definition round_even :: "real \<Rightarrow> int" where
  "round_even r =
     (let f = \<lfloor>r\<rfloor>
      in if r - of_int f < 1 / 2 then f
         else if 1 / 2 < r - of_int f then f + 1
         else if even f then f else f + 1)"

definition expo :: "real \<Rightarrow> int" where
  "expo x = max \<lfloor>log 2 \<bar>x\<bar>\<rfloor> (- 1022)"

definition quantum :: "real \<Rightarrow> real" where
  "quantum x = 2 powr (of_int (expo x) - 52)"

definition double :: "real \<Rightarrow> real" where
  "double x = (if x = 0 then 0 else quantum x * of_int (round_even (x / quantum x)))"

text \<open>\<open>xs[i]\<close>: \<open>undefined\<close> when the index is NaN or out of range.\<close>

definition js_index :: "entry list \<Rightarrow> int option \<Rightarrow> entry" where
  "js_index xs i =
     (case i of
        None \<Rightarrow> Undefined
      | Some k \<Rightarrow> if 0 \<le> k \<and> k < int (length xs) then xs ! nat k else Undefined)"

text \<open>\<open>pos[i]\<close> used as a number.\<close>

definition coord :: "real list \<Rightarrow> nat \<Rightarrow> num" where
  "coord ps i = (if i < length ps then Num (ps ! i) else NaN)"

fun js_mul :: "num \<Rightarrow> real \<Rightarrow> num" where
  "js_mul NaN k = NaN"
| "js_mul (Num x) k = Num (x * k)"

fun js_div :: "num \<Rightarrow> real \<Rightarrow> num" where
  "js_div NaN k = NaN"
| "js_div (Num x) k = (if k = 0 then NaN else Num (x / k))"

text \<open>The test \<open>entry && entry.pos && entry.pos.length === 3\<close> (an array is truthy).\<close>

fun has_pos3 :: "entry \<Rightarrow> bool" where
  "has_pos3 (Entry (Some ps)) = (length ps = 3)"
| "has_pos3 _ = False"

text \<open>\<open>entry.pos\<close> read as an array: a TypeError on \<open>undefined\<close>, \<open>null\<close> or a missing field.\<close>

fun get_pos :: "entry \<Rightarrow> error + real list" where
  "get_pos (Entry (Some ps)) = Inr ps"
| "get_pos _ = Inl TypeError"

text \<open>\<open>Array.prototype.map\<close> with a callback that may throw: the first exception ends it.\<close>

fun map_err :: "('a \<Rightarrow> error + 'b) \<Rightarrow> 'a list \<Rightarrow> error + 'b list" where
  "map_err f [] = Inr []"
| "map_err f (x # xs) =
     (case f x of
        Inl e \<Rightarrow> Inl e
      | Inr y \<Rightarrow> (case map_err f xs of Inl e \<Rightarrow> Inl e | Inr ys \<Rightarrow> Inr (y # ys)))"

section \<open>The frame-index player\<close>

text \<open>The field \<open>file\<close> of a planet is written \<open>file'\<close>.\<close>

record planet =
  name :: string
  file' :: string
  radius :: real
  color :: nat
  ORBIT_SCALE :: real

definition SUN_RADIUS :: real where
  "SUN_RADIUS = 10"

definition FRAME_SPEED :: real where
  "FRAME_SPEED = double (1 / 10)"

definition mk_planet :: "string \<Rightarrow> string \<Rightarrow> real \<Rightarrow> nat \<Rightarrow> real \<Rightarrow> planet" where
  "mk_planet n f r c k = \<lparr>name = n, file' = f, radius = r, color = c, ORBIT_SCALE = k\<rparr>"

definition planets :: "planet list" where
  "planets =
     [mk_planet ''Mercury'' ''mercury_positions.json'' (5 / 4) 0xff3333 (5 / 10000000),
      mk_planet ''Venus'' ''venus_positions.json'' (5 / 2) 0xffcc33 (5 / 10000000),
      mk_planet ''Earth'' ''earth_positions.json'' (11 / 4) 0x3399ff (5 / 10000000),
      mk_planet ''Mars'' ''mars_positions.json'' (7 / 4) 0xff6633 (5 / 10000000),
      mk_planet ''Jupiter'' ''jupiter_positions.json'' 7 0xffcc33 (3 / 10000000),
      mk_planet ''Saturn'' ''saturn_positions.json'' 6 0xffcc33 (3 / 10000000),
      mk_planet ''Uranus'' ''uranus_positions.json'' (17 / 4) 0x66ccff (3 / 10000000),
      mk_planet ''Neptune'' ''neptune_positions.json'' 4 0x3333ff (3 / 10000000),
      mk_planet ''Pluto'' ''pluto_positions.json'' (3 / 4) 0xaaaaaa (3 / 10000000)]"

text \<open>What the code writes to the console.\<close>

datatype log =
    Loaded nat string
  | Samples string "entry list"
  | LoadError string error
  | AllLoaded
  | MarsPos "real list" vec3

text \<open>
  The mutable globals: \<open>frameIndex\<close>, the object \<open>planetPositions\<close> (no key before a load),
  the position of each mesh in \<open>planetMeshes\<close>, the points of each planet's
  \<open>orbitPath\<close> line (kept under the planet's name; the names of the table are distinct),
  and the console.
\<close>

record state =
  frameIndex :: real
  planetPositions :: "string \<rightharpoonup> entry list"
  planetMeshes :: "string \<rightharpoonup> vec3"
  orbitPath :: "string \<rightharpoonup> vec3 list"
  console :: "log list"

text \<open>
  The state after the synchronous part of the script: a mesh at the origin and an empty
  orbit line for every planet.
\<close>

definition create_planet :: "planet \<Rightarrow> state \<Rightarrow> state" where
  "create_planet p s =
     s\<lparr>planetMeshes := (planetMeshes s)(name p \<mapsto> (Num 0, Num 0, Num 0)),
       orbitPath := (orbitPath s)(name p \<mapsto> [])\<rparr>"

definition init :: "planet list \<Rightarrow> state" where
  "init ps =
     fold create_planet ps
       \<lparr>frameIndex = 0, planetPositions = Map.empty, planetMeshes = Map.empty,
        orbitPath = Map.empty, console = []\<rparr>"

subsection \<open>Loading: \<open>planetPromises\<close>\<close>

text \<open>\<open>new THREE.Vector3(entry.pos[0] * k, entry.pos[1] * k, entry.pos[2] * k)\<close>.\<close>

definition scaled_point :: "real \<Rightarrow> entry \<Rightarrow> error + vec3" where
  "scaled_point k e =
     (case get_pos e of
        Inl err \<Rightarrow> Inl err
      | Inr ps \<Rightarrow> Inr (js_mul (coord ps 0) k, js_mul (coord ps 1) k, js_mul (coord ps 2) k))"

text \<open>
  The last \<open>then\<close> callback, run with the parsed file. It stores the parsed array as it
  is, logs, and sets the orbit line from the filtered and scaled entries. The result
  holds the state the callback leaves and the exception that ended it, if any.
\<close>

definition on_data :: "planet \<Rightarrow> entry list \<Rightarrow> state \<Rightarrow> error option \<times> state" where
  "on_data p data s =
     (let s1 = s\<lparr>planetPositions := (planetPositions s)(name p \<mapsto> data),
                 console := console s @ [Loaded (length data) (name p)]\<rparr>
      in case map_err (scaled_point (ORBIT_SCALE p)) (filter has_pos3 data) of
           Inl err \<Rightarrow> (Some err, s1)
         | Inr points \<Rightarrow>
             (None, s1\<lparr>orbitPath := (orbitPath s1)(name p \<mapsto> points),
                       console := console s1 @ [Samples (name p) (take 5 data)]\<rparr>))"

text \<open>
  One element of \<open>planetPromises\<close>, settled. The argument \<open>r\<close> is what
  \<open>fetch(planet.file).then(res => res.json())\<close> gives: a rejection or the parsed file.
  The \<open>catch\<close> callback logs every rejection, so the promise is always fulfilled.
\<close>

definition planet_promise :: "planet \<Rightarrow> error + entry list \<Rightarrow> state \<Rightarrow> state" where
  "planet_promise p r s =
     (case r of
        Inl err \<Rightarrow> s\<lparr>console := console s @ [LoadError (name p) err]\<rparr>
      | Inr data \<Rightarrow>
          (case on_data p data s of
             (Some err, s') \<Rightarrow> s'\<lparr>console := console s' @ [LoadError (name p) err]\<rparr>
           | (None, s') \<Rightarrow> s'))"

text \<open>
  The promises settle one after the other, in the order the responses arrive.
  \<open>Promise.all\<close> then logs and starts the animation.
\<close>

definition settle :: "(planet \<times> (error + entry list)) list \<Rightarrow> state \<Rightarrow> state" where
  "settle rs s = fold (\<lambda>(p, r). planet_promise p r) rs s"

definition all_settled :: "state \<Rightarrow> state" where
  "all_settled s = s\<lparr>console := console s @ [AllLoaded]\<rparr>"

subsection \<open>Playback: \<open>animate\<close>\<close>

text \<open>\<open>Math.floor(frameIndex) % positions.length\<close>.\<close>

definition sample_index :: "real \<Rightarrow> entry list \<Rightarrow> int option" where
  "sample_index f positions = js_rem \<lfloor>f\<rfloor> (int (length positions))"

text \<open>
  The body of \<open>planets.forEach\<close>. An absent key of \<open>planetPositions\<close> or
  \<open>planetMeshes\<close> is \<open>undefined\<close>, which the first test rejects.
\<close>

definition animate_planet :: "planet \<Rightarrow> state \<Rightarrow> error + state" where
  "animate_planet p s =
     (case (planetPositions s (name p), planetMeshes s (name p)) of
        (Some positions, Some mesh) \<Rightarrow>
          if 0 < length positions then
            (let idx = sample_index (frameIndex s) positions;
                 entry = js_index positions idx
             in if has_pos3 entry then
                  (case get_pos entry of
                     Inl err \<Rightarrow> Inl err
                   | Inr ps \<Rightarrow>
                       (let v = (js_mul (coord ps 0) (ORBIT_SCALE p),
                                 js_mul (coord ps 1) (ORBIT_SCALE p),
                                 js_mul (coord ps 2) (ORBIT_SCALE p));
                            s1 = s\<lparr>planetMeshes := (planetMeshes s)(name p \<mapsto> v)\<rparr>
                        in if name p = ''Mars'' \<and> js_fmod (frameIndex s) 60 = Some 0
                           then Inr (s1\<lparr>console := console s1 @ [MarsPos ps v]\<rparr>)
                           else Inr s1))
                else Inr s)
          else Inr s
      | _ \<Rightarrow> Inr s)"

text \<open>
  The position the loop body computes for a planet, read off \<open>animate_planet\<close> as a
  function of the frame counter and the stored arrays; \<open>None\<close> where the body sets no
  position. The lemmas \<open>animate_planet_skip\<close> and \<open>animate_planet_set\<close> below prove
  that \<open>animate_planet\<close> does exactly this.
\<close>

definition planet_target :: "planet \<Rightarrow> real \<Rightarrow> (string \<rightharpoonup> entry list) \<Rightarrow> vec3 option" where
  "planet_target p f pp =
     (case pp (name p) of
        None \<Rightarrow> None
      | Some positions \<Rightarrow>
          if positions = [] then None
          else (case js_index positions (sample_index f positions) of
                  Entry (Some [x, y, z]) \<Rightarrow>
                    Some (Num (x * ORBIT_SCALE p), Num (y * ORBIT_SCALE p),
                          Num (z * ORBIT_SCALE p))
                | _ \<Rightarrow> None))"

text \<open>\<open>planets.forEach\<close>: an exception in one body ends the loop.\<close>

fun for_each :: "('a \<Rightarrow> 's \<Rightarrow> error + 's) \<Rightarrow> 'a list \<Rightarrow> 's \<Rightarrow> error + 's" where
  "for_each f [] s = Inr s"
| "for_each f (x # xs) s = (case f x s of Inl e \<Rightarrow> Inl e | Inr s' \<Rightarrow> for_each f xs s')"

text \<open>
  One frame, for a step and a planet table; \<open>animate\<close> is the frame of the script.
  Rendering and the camera controls are not part of the state.
\<close>

definition animate_frame :: "real \<Rightarrow> planet list \<Rightarrow> state \<Rightarrow> error + state" where
  "animate_frame step ps s =
     (case for_each animate_planet ps s of
        Inl e \<Rightarrow> Inl e
      | Inr s' \<Rightarrow> Inr (s'\<lparr>frameIndex := double (frameIndex s' + step)\<rparr>))"

definition animate :: "state \<Rightarrow> error + state" where
  "animate s = animate_frame FRAME_SPEED planets s"

text \<open>\<open>n\<close> frames in a row, up to the first exception.\<close>

fun frames :: "real \<Rightarrow> planet list \<Rightarrow> nat \<Rightarrow> state \<Rightarrow> error + state" where
  "frames step ps 0 s = Inr s"
| "frames step ps (Suc n) s =
     (case animate_frame step ps s of Inl e \<Rightarrow> Inl e | Inr s' \<Rightarrow> frames step ps n s')"

section \<open>The orbit-line player\<close>

text \<open>
  The planet table without the texture paths; \<open>clouds\<close> and \<open>rings\<close> say whether the
  planet has that texture.
\<close>

record planet2 =
  name2 :: string
  size2 :: real
  scale2 :: real
  tilt :: real
  rotationSpeed :: real
  clouds :: bool
  rings :: bool

definition mk_planet2 ::
  "string \<Rightarrow> real \<Rightarrow> real \<Rightarrow> real \<Rightarrow> real \<Rightarrow> bool \<Rightarrow> bool \<Rightarrow> planet2" where
  "mk_planet2 n sz sc ti rs cl ri =
     \<lparr>name2 = n, size2 = sz, scale2 = sc, tilt = ti, rotationSpeed = rs, clouds = cl,
      rings = ri\<rparr>"

definition planets2 :: "planet2 list" where
  "planets2 =
     [mk_planet2 ''mercury'' 10 400000 (34 / 1000) (4 / 1000) False False,
      mk_planet2 ''venus'' 20 400000 (1774 / 10 * pi / 180) (- (1 / 10000)) False False,
      mk_planet2 ''earth'' 22 400000 (235 / 10 * pi / 180) (1 / 100) True False,
      mk_planet2 ''mars'' 18 400000 (25 * pi / 180) (9 / 1000) False False,
      mk_planet2 ''jupiter'' 70 520000 (31 / 10 * pi / 180) (4 / 100) False False,
      mk_planet2 ''saturn'' 60 520000 (267 / 10 * pi / 180) (38 / 1000) False True,
      mk_planet2 ''uranus'' 40 520000 (978 / 10 * pi / 180) (3 / 100) False False,
      mk_planet2 ''neptune'' 39 520000 (283 / 10 * pi / 180) (32 / 1000) False False,
      mk_planet2 ''pluto'' 14 520000 (1196 / 10 * pi / 180) (3 / 1000) False False]"

text \<open>
  A planet mesh (its position, its rotation about z, the speed kept in \<open>userData\<close>, the
  rotation of its cloud child if it has one) and an orbit line (the points of its
  geometry and its \<open>visible\<close> flag).
\<close>

record mesh =
  position :: vec3
  rotation_z :: real
  userData_rotationSpeed :: real
  clouds_rotation_z :: "real option"

record orbit_line =
  points :: "vec3 list"
  visible :: bool

text \<open>
  Where the asynchronous function \<open>loadPlanets\<close> stands: not called yet, suspended at
  the \<open>await\<close> for one planet's file with the rest of the loop ahead, ended by an
  exception, or returned.
\<close>

datatype loader = NotStarted | Awaiting planet2 "planet2 list" | Rejected error | Finished

record state2 =
  t :: real
  speed :: real
  orbitsVisible :: bool
  sun_rotation_z :: real
  planetMeshes2 :: "string \<rightharpoonup> mesh"
  orbitLines :: "string \<rightharpoonup> orbit_line"
  loadPlanets_at :: loader
  loading_shown :: bool

definition init2 :: state2 where
  "init2 =
     \<lparr>t = 0, speed = 1, orbitsVisible = True, sun_rotation_z = 0,
      planetMeshes2 = Map.empty, orbitLines = Map.empty, loadPlanets_at = NotStarted,
      loading_shown = True\<rparr>"

subsection \<open>Loading: \<open>loadPlanets\<close>\<close>

text \<open>
  The loop of \<open>loadPlanets\<close> up to its next \<open>await\<close>: it makes the mesh of the next
  planet and then waits for that planet's file; after the last planet it hides the
  loading note and returns.
\<close>

fun load_from :: "planet2 list \<Rightarrow> state2 \<Rightarrow> state2" where
  "load_from [] s = s\<lparr>loadPlanets_at := Finished, loading_shown := False\<rparr>"
| "load_from (p # rest) s =
     s\<lparr>planetMeshes2 := (planetMeshes2 s)(name2 p \<mapsto>
          \<lparr>position = (Num 0, Num 0, Num 0), rotation_z = tilt p,
           userData_rotationSpeed = rotationSpeed p,
           clouds_rotation_z = (if clouds p then Some 0 else None)\<rparr>),
       loadPlanets_at := Awaiting p rest\<rparr>"

text \<open>\<open>new THREE.Vector3(d.pos[0] / k, d.pos[1] / k, d.pos[2] / k)\<close>, with no test before.\<close>

definition orbit_point :: "real \<Rightarrow> entry \<Rightarrow> error + vec3" where
  "orbit_point k d =
     (case get_pos d of
        Inl err \<Rightarrow> Inl err
      | Inr ps \<Rightarrow> Inr (js_div (coord ps 0) k, js_div (coord ps 1) k, js_div (coord ps 2) k))"

text \<open>
  The awaited file arrives or fails. Nothing catches an exception, so it ends
  \<open>loadPlanets\<close>. A new line is visible, as every object of the rendering library is.
  Without a pending request there is no answer to handle, and the state stays as it is.
\<close>

definition resume :: "error + entry list \<Rightarrow> state2 \<Rightarrow> state2" where
  "resume r s =
     (case loadPlanets_at s of
        Awaiting p rest \<Rightarrow>
          (case r of
             Inl err \<Rightarrow> s\<lparr>loadPlanets_at := Rejected err\<rparr>
           | Inr orbitData \<Rightarrow>
               (case map_err (orbit_point (scale2 p)) orbitData of
                  Inl err \<Rightarrow> s\<lparr>loadPlanets_at := Rejected err\<rparr>
                | Inr orbitPoints \<Rightarrow>
                    load_from rest
                      (s\<lparr>orbitLines := (orbitLines s)(name2 p \<mapsto>
                           \<lparr>points = orbitPoints, visible = True\<rparr>)\<rparr>)))
      | _ \<Rightarrow> s)"

subsection \<open>Playback: \<open>animate\<close>\<close>

text \<open>\<open>Math.floor((t / 2) % position.count)\<close>; the floor of NaN is NaN.\<close>

definition orbit_index :: "real \<Rightarrow> vec3 list \<Rightarrow> int option" where
  "orbit_index c pts = map_option floor (js_fmod (double (c / 2)) (real (length pts)))"

text \<open>
  \<open>fromBufferAttribute(position, index)\<close>: the vertex at the index, read from an array.
  At a NaN index and outside the array the read gives no number (\<open>undefined\<close>), written
  NaN here.
\<close>

definition from_buffer :: "vec3 list \<Rightarrow> int option \<Rightarrow> vec3" where
  "from_buffer pts i =
     (case i of
        None \<Rightarrow> (NaN, NaN, NaN)
      | Some k \<Rightarrow> if 0 \<le> k \<and> k < int (length pts) then pts ! nat k else (NaN, NaN, NaN))"

definition animate_planet2 :: "planet2 \<Rightarrow> state2 \<Rightarrow> state2" where
  "animate_planet2 p s =
     (case planetMeshes2 s (name2 p) of
        None \<Rightarrow> s
      | Some m \<Rightarrow>
          (case orbitLines s (name2 p) of
             None \<Rightarrow> s
           | Some orbit \<Rightarrow>
               (let index = orbit_index (t s) (points orbit);
                    m1 = m\<lparr>position := from_buffer (points orbit) index,
                           rotation_z := double (rotation_z m + userData_rotationSpeed m),
                           clouds_rotation_z :=
                             map_option (\<lambda>r. double (r + double (2 / 1000)))
                               (clouds_rotation_z m)\<rparr>
                in s\<lparr>planetMeshes2 := (planetMeshes2 s)(name2 p \<mapsto> m1)\<rparr>)))"

definition animate2 :: "planet2 list \<Rightarrow> state2 \<Rightarrow> state2" where
  "animate2 ps s =
     fold animate_planet2 ps
       (s\<lparr>sun_rotation_z := double (sun_rotation_z s + double (2 / 1000)),
          t := double (t s + speed s)\<rparr>)"

subsection \<open>The buttons\<close>

definition toggleOrbits :: "state2 \<Rightarrow> state2" where
  "toggleOrbits s =
     (let v = \<not> orbitsVisible s
      in s\<lparr>orbitsVisible := v,
           orbitLines := (\<lambda>n. map_option (\<lambda>l. l\<lparr>visible := v\<rparr>) (orbitLines s n))\<rparr>)"

definition speedUp :: "state2 \<Rightarrow> state2" where
  "speedUp s = s\<lparr>speed := double (speed s * (3 / 2))\<rparr>"

definition speedDown :: "state2 \<Rightarrow> state2" where
  "speedDown s = s\<lparr>speed := double (speed s * double (7 / 10))\<rparr>"

subsection \<open>Runs\<close>

text \<open>
  What can happen after the script has run: a frame, the answer to the pending
  request, a click on a button. The view reset moves the camera only, which is not part
  of the state.
\<close>

datatype event = Frame | Response "error + entry list" | ToggleOrbits | SpeedUp | SpeedDown
  | ResetView

fun step2 :: "planet2 list \<Rightarrow> event \<Rightarrow> state2 \<Rightarrow> state2" where
  "step2 ps Frame s = animate2 ps s"
| "step2 ps (Response r) s = resume r s"
| "step2 ps ToggleOrbits s = toggleOrbits s"
| "step2 ps SpeedUp s = speedUp s"
| "step2 ps SpeedDown s = speedDown s"
| "step2 ps ResetView s = s"

text \<open>
  The script calls \<open>loadPlanets()\<close>, which runs to its first \<open>await\<close>, and then
  \<open>animate()\<close> once; every later frame and every other event comes from the browser.
\<close>

definition boot2 :: "planet2 list \<Rightarrow> state2" where
  "boot2 ps = animate2 ps (load_from ps init2)"

definition run2 :: "planet2 list \<Rightarrow> event list \<Rightarrow> state2" where
  "run2 ps es = fold (step2 ps) es (boot2 ps)"

section \<open>The scenarios of the specification\<close>

text \<open>
  The specification's scenarios use one body with the samples \<open>[0,0,0]\<close>, \<open>[10,0,0]\<close>,
  \<open>[20,0,0]\<close>, a scale factor and a step of their own. \<open>scenario_state data k\<close> is the
  frame-index player with that one body of scale \<open>k\<close>, after the file \<open>data\<close> has loaded;
  \<open>position_after data k step n\<close> is the position of its mesh after \<open>n\<close> frames of that
  step.
\<close>

definition scenario_samples :: "entry list" where
  "scenario_samples = [Entry (Some [0, 0, 0]), Entry (Some [10, 0, 0]), Entry (Some [20, 0, 0])]"

definition scenario_planet :: "real \<Rightarrow> planet" where
  "scenario_planet k = mk_planet ''Body'' ''body_positions.json'' 1 0 k"

definition scenario_state :: "entry list \<Rightarrow> real \<Rightarrow> state" where
  "scenario_state data k =
     planet_promise (scenario_planet k) (Inr data) (init [scenario_planet k])"

definition position_after :: "entry list \<Rightarrow> real \<Rightarrow> real \<Rightarrow> nat \<Rightarrow> vec3 option" where
  "position_after data k step n =
     (case frames step [scenario_planet k] n (scenario_state data k) of
        Inl e \<Rightarrow> None
      | Inr s \<Rightarrow> planetMeshes s ''Body'')"

text \<open>A file with one good record and one record of two coordinates.\<close>

definition short_record_file :: "entry list" where
  "short_record_file = [Entry (Some [1, 2, 3]), Entry (Some [1, 2])]"

text \<open>The frame counter of the frame-index player after one frame from a state.\<close>

definition frameIndex_after :: "state \<Rightarrow> real option" where
  "frameIndex_after s = (case animate s of Inl e \<Rightarrow> None | Inr s' \<Rightarrow> Some (frameIndex s'))"

text \<open>
  The orbit line of a body in a state of the orbit-line player: the number of its
  vertices (\<open>position.count\<close>) and its vertex at an index.
\<close>

definition line_count :: "state2 \<Rightarrow> string \<Rightarrow> nat option" where
  "line_count s n = map_option (\<lambda>l. length (points l)) (orbitLines s n)"


section \<open>Properties of the rounding\<close>

lemma round_even_int [simp]: "round_even (of_int m) = m"
  by (simp add: round_even_def)

lemma round_even_lower: "r - 1 / 2 \<le> of_int (round_even r)"
  unfolding round_even_def Let_def by (simp; linarith)

lemma round_even_upper: "of_int (round_even r) \<le> r + 1 / 2"
  unfolding round_even_def Let_def by (simp; linarith)

lemma round_even_floor: "\<lfloor>r\<rfloor> \<le> round_even r" "round_even r \<le> \<lfloor>r\<rfloor> + 1"
  unfolding round_even_def Let_def by simp_all

lemma round_even_mono: "r \<le> r' \<Longrightarrow> round_even r \<le> round_even r'"
proof -
  assume le: "r \<le> r'"
  then have fl: "\<lfloor>r\<rfloor> \<le> \<lfloor>r'\<rfloor>" by (rule floor_mono)
  show ?thesis
  proof (cases "\<lfloor>r\<rfloor> = \<lfloor>r'\<rfloor>")
    case True
    with le show ?thesis unfolding round_even_def Let_def by auto
  next
    case False
    with fl have "\<lfloor>r\<rfloor> + 1 \<le> \<lfloor>r'\<rfloor>" by simp
    with round_even_floor(2) [of r] round_even_floor(1) [of r'] show ?thesis by linarith
  qed
qed

lemma quantum_pos: "0 < quantum x"
  by (simp add: quantum_def)

lemma expo_upper: "x \<noteq> 0 \<Longrightarrow> \<bar>x\<bar> < 2 powr (of_int (expo x) + 1)"
proof -
  assume "x \<noteq> 0"
  then have pos: "0 < \<bar>x\<bar>" by simp
  have "log 2 \<bar>x\<bar> < of_int \<lfloor>log 2 \<bar>x\<bar>\<rfloor> + 1" by linarith
  also have "\<dots> \<le> of_int (expo x) + 1" by (simp add: expo_def)
  finally have "log 2 \<bar>x\<bar> < of_int (expo x) + 1" .
  then show ?thesis using pos by (simp add: log_less_iff)
qed

lemma expo_lower: "x \<noteq> 0 \<Longrightarrow> - 1022 < expo x \<Longrightarrow> 2 powr of_int (expo x) \<le> \<bar>x\<bar>"
proof -
  assume "x \<noteq> 0" and n: "- 1022 < expo x"
  then have pos: "0 < \<bar>x\<bar>" by simp
  from n have "expo x = \<lfloor>log 2 \<bar>x\<bar>\<rfloor>" by (simp add: expo_def max_def split: if_splits)
  then have "of_int (expo x) \<le> log 2 \<bar>x\<bar>" by simp
  then show ?thesis using pos by (simp add: le_log_iff)
qed

lemma expo_mono: "0 < x \<Longrightarrow> x \<le> y \<Longrightarrow> expo x \<le> expo y"
proof -
  assume "0 < x" and "x \<le> y"
  then have "log 2 \<bar>x\<bar> \<le> log 2 \<bar>y\<bar>" by simp
  then have "\<lfloor>log 2 \<bar>x\<bar>\<rfloor> \<le> \<lfloor>log 2 \<bar>y\<bar>\<rfloor>" by (rule floor_mono)
  then show ?thesis by (simp add: expo_def)
qed

lemma quantum_scale: "quantum x * 2 ^ 53 = 2 powr (of_int (expo x) + 1)"
proof -
  have "(2::real) ^ 53 = 2 powr 53" by simp
  then have "quantum x * 2 ^ 53 = 2 powr (of_int (expo x) - 52) * 2 powr 53"
    by (simp add: quantum_def)
  also have "\<dots> = 2 powr (of_int (expo x) - 52 + 53)" by (simp only: powr_add)
  finally show ?thesis by (simp add: add.commute)
qed

lemma quantum_scale': "quantum x * 2 ^ 52 = 2 powr of_int (expo x)"
proof -
  have "(2::real) ^ 52 = 2 powr 52" by simp
  then have "quantum x * 2 ^ 52 = 2 powr (of_int (expo x) - 52) * 2 powr 52"
    by (simp add: quantum_def)
  also have "\<dots> = 2 powr (of_int (expo x) - 52 + 52)" by (simp only: powr_add)
  finally show ?thesis by simp
qed

lemma ratio_upper: "0 < x \<Longrightarrow> x / quantum x < 2 ^ 53"
proof -
  assume "0 < x"
  with expo_upper [of x] quantum_scale [of x] have "x < quantum x * 2 ^ 53" by simp
  then show ?thesis using quantum_pos [of x] by (simp add: pos_divide_less_eq mult.commute)
qed

lemma ratio_lower: "0 < x \<Longrightarrow> - 1022 < expo x \<Longrightarrow> 2 ^ 52 \<le> x / quantum x"
proof -
  assume "0 < x" and "- 1022 < expo x"
  with expo_lower [of x] quantum_scale' [of x] have "quantum x * 2 ^ 52 \<le> x" by simp
  then show ?thesis using quantum_pos [of x] by (simp add: pos_le_divide_eq mult.commute)
qed

lemma mantissa_upper: "0 < x \<Longrightarrow> round_even (x / quantum x) \<le> 2 ^ 53"
proof -
  assume "0 < x"
  then have "x / quantum x \<le> of_int (2 ^ 53)" using ratio_upper [of x] by simp
  then have "round_even (x / quantum x) \<le> round_even (of_int (2 ^ 53))"
    by (rule round_even_mono)
  then show ?thesis by (simp only: round_even_int)
qed

lemma mantissa_lower:
  "0 < x \<Longrightarrow> - 1022 < expo x \<Longrightarrow> 2 ^ 52 \<le> round_even (x / quantum x)"
proof -
  assume "0 < x" and "- 1022 < expo x"
  then have "of_int (2 ^ 52) \<le> x / quantum x" using ratio_lower [of x] by simp
  then have "round_even (of_int (2 ^ 52)) \<le> round_even (x / quantum x)"
    by (rule round_even_mono)
  then show ?thesis by (simp only: round_even_int)
qed

lemma mantissa_nonneg: "0 < x \<Longrightarrow> 0 \<le> round_even (x / quantum x)"
proof -
  assume "0 < x"
  then have "of_int 0 \<le> x / quantum x" using quantum_pos [of x] by simp
  then have "round_even (of_int 0) \<le> round_even (x / quantum x)"
    by (rule round_even_mono)
  then show ?thesis by (simp only: round_even_int)
qed

lemma double_zero [simp]: "double 0 = 0"
  by (simp add: double_def)

lemma double_nonneg: "0 \<le> x \<Longrightarrow> 0 \<le> double x"
proof (cases "x = 0")
  case True
  then show ?thesis by simp
next
  case False
  assume "0 \<le> x"
  with False have "0 < x" by simp
  then have "(0::real) \<le> of_int (round_even (x / quantum x))"
    using mantissa_nonneg by simp
  with False quantum_pos [of x] show ?thesis by (simp add: double_def)
qed

lemma double_upper_binade: "0 < x \<Longrightarrow> double x \<le> 2 powr (of_int (expo x) + 1)"
proof -
  assume pos: "0 < x"
  then have "(of_int (round_even (x / quantum x)) :: real) \<le> of_int (2 ^ 53)"
    using mantissa_upper by (simp only: of_int_le_iff)
  then have "quantum x * of_int (round_even (x / quantum x)) \<le> quantum x * 2 ^ 53"
    using quantum_pos [of x] by simp
  with pos quantum_scale [of x] show ?thesis by (simp add: double_def)
qed

lemma double_lower_binade:
  "0 < x \<Longrightarrow> - 1022 < expo x \<Longrightarrow> 2 powr of_int (expo x) \<le> double x"
proof -
  assume pos: "0 < x" and n: "- 1022 < expo x"
  then have "(of_int (2 ^ 52) :: real) \<le> of_int (round_even (x / quantum x))"
    using mantissa_lower by (simp only: of_int_le_iff)
  then have "quantum x * 2 ^ 52 \<le> quantum x * of_int (round_even (x / quantum x))"
    using quantum_pos [of x] by simp
  with pos quantum_scale' [of x] show ?thesis by (simp add: double_def)
qed

lemma double_mono_pos:
  assumes "0 < x" and "x \<le> y"
  shows "double x \<le> double y"
proof -
  from assms have ypos: "0 < y" by simp
  from assms have e: "expo x \<le> expo y" by (rule expo_mono)
  show ?thesis
  proof (cases "expo x = expo y")
    case True
    then have q: "quantum x = quantum y" by (simp add: quantum_def)
    have "x / quantum y \<le> y / quantum y"
      using assms(2) quantum_pos [of y] by (simp add: divide_right_mono)
    then have "round_even (x / quantum y) \<le> round_even (y / quantum y)"
      by (rule round_even_mono)
    then have "quantum y * of_int (round_even (x / quantum y))
               \<le> quantum y * of_int (round_even (y / quantum y))"
      using quantum_pos [of y] by simp
    with assms(1) ypos q show ?thesis by (simp add: double_def)
  next
    case False
    with e have lt: "expo x + 1 \<le> expo y" by simp
    then have n: "- 1022 < expo y" by (simp add: expo_def)
    have "double x \<le> 2 powr (of_int (expo x) + 1)"
      using assms(1) by (rule double_upper_binade)
    also have "\<dots> \<le> 2 powr of_int (expo y)"
    proof -
      from lt have "(of_int (expo x) + 1 :: real) \<le> of_int (expo y)" by linarith
      then show ?thesis by simp
    qed
    also have "\<dots> \<le> double y" using ypos n by (rule double_lower_binade)
    finally show ?thesis .
  qed
qed

lemma double_mono: "0 \<le> x \<Longrightarrow> x \<le> y \<Longrightarrow> double x \<le> double y"
proof (cases "x = 0")
  case True
  assume "x \<le> y"
  with True show ?thesis by (simp add: double_nonneg)
next
  case False
  assume "0 \<le> x" and "x \<le> y"
  with False show ?thesis by (intro double_mono_pos) simp_all
qed

lemma expo_eq:
  assumes "0 < v" and "- 1022 \<le> e" and "v < 2 powr (of_int e + 1)"
    and "2 powr of_int e \<le> v \<or> e = - 1022"
  shows "expo v = e"
proof -
  have up: "log 2 v < of_int e + 1" using assms(1,3) by (simp add: log_less_iff)
  then have fl_up: "\<lfloor>log 2 v\<rfloor> \<le> e" by linarith
  show ?thesis
  proof (cases "2 powr of_int e \<le> v")
    case True
    then have "of_int e \<le> log 2 v" using assms(1) by (simp add: le_log_iff)
    then have "e \<le> \<lfloor>log 2 v\<rfloor>" by linarith
    with fl_up have "\<lfloor>log 2 v\<rfloor> = e" by simp
    with assms(1,2) show ?thesis by (simp add: expo_def)
  next
    case False
    with assms(4) have "e = - 1022" by simp
    with fl_up assms(1) show ?thesis by (simp add: expo_def)
  qed
qed

lemma double_exact:
  assumes "v \<noteq> 0" and "v / quantum v = of_int m"
  shows "double v = v"
proof -
  have "quantum v * of_int m = v"
    using assms(2) quantum_pos [of v] by (simp add: field_simps)
  with assms show ?thesis by (simp add: double_def)
qed

lemma double_dyadic:
  assumes "0 < v" and "- 1022 \<le> e" and "2 powr of_int e \<le> v" and "v < 2 powr (of_int e + 1)"
    and "v / 2 powr (of_int e - 52) = of_int m"
  shows "double v = v"
proof -
  have "expo v = e" using assms(1,2,4,3) by (intro expo_eq) simp_all
  then have "quantum v = 2 powr (of_int e - 52)" by (simp add: quantum_def)
  with assms(1,5) show ?thesis by (intro double_exact [of v m]) simp_all
qed

lemma double_1 [simp]: "double 1 = 1"
  by (rule double_dyadic [of 1 0 "2 ^ 52"]) (simp_all add: powr_minus_divide)

lemma double_2 [simp]: "double 2 = 2"
  by (rule double_dyadic [of 2 1 "2 ^ 52"]) (simp_all add: powr_minus_divide)

lemma double_3_2 [simp]: "double (3 / 2) = 3 / 2"
  by (rule double_dyadic [of "3 / 2" 0 "3 * 2 ^ 51"]) (simp_all add: powr_minus_divide)

lemma double_7_2 [simp]: "double (7 / 2) = 7 / 2"
  by (rule double_dyadic [of "7 / 2" 1 "7 * 2 ^ 50"]) (simp_all add: powr_minus_divide)

lemma double_3 [simp]: "double 3 = 3"
  by (rule double_dyadic [of 3 1 "3 * 2 ^ 51"]) (simp_all add: powr_minus_divide)

lemma double_4 [simp]: "double 4 = 4"
  by (rule double_dyadic [of 4 2 "2 ^ 52"]) (simp_all add: powr_minus_divide)

lemma double_idem:
  assumes "0 \<le> x"
  shows "double (double x) = double x"
proof (cases "double x = 0")
  case True
  then show ?thesis by simp
next
  case False
  then have xne: "x \<noteq> 0" by auto
  with assms have pos: "0 < x" by simp
  let ?q = "quantum x" and ?m = "round_even (x / quantum x)" and ?e = "expo x"
  have v: "double x = ?q * of_int ?m" using xne by (simp add: double_def)
  have vpos: "0 < double x" using False double_nonneg [OF assms] by simp
  have mpos: "0 < ?m"
  proof -
    from vpos v quantum_pos [of x] have "(0::real) < of_int ?m"
      by (simp add: zero_less_mult_iff)
    then show ?thesis by simp
  qed
  have e_min: "- 1022 \<le> ?e" by (simp add: expo_def)
  show ?thesis
  proof (cases "?m = 2 ^ 53")
    case True
    then have val: "double x = 2 powr (of_int (?e + 1))"
      using v quantum_scale [of x] by (simp add: add.commute)
    have "expo (double x) = ?e + 1"
      using vpos e_min val by (intro expo_eq) simp_all
    then have "quantum (double x) = 2 powr (of_int (?e + 1) - 52)"
      by (simp add: quantum_def)
    moreover have "2 powr (of_int (?e + 1)) / 2 powr (of_int (?e + 1) - 52) = (2::real) powr 52"
      by (simp add: powr_diff [symmetric])
    ultimately have "double x / quantum (double x) = of_int (2 ^ 52)"
      using val by simp
    with False show ?thesis by (rule double_exact)
  next
    case False
    with mantissa_upper [OF pos] have mlt: "?m < 2 ^ 53" by simp
    then have "(of_int ?m :: real) < of_int (2 ^ 53)" by (simp only: of_int_less_iff)
    then have "?q * of_int ?m < ?q * 2 ^ 53" using quantum_pos [of x] by simp
    then have up: "double x < 2 powr (of_int ?e + 1)"
      using v quantum_scale [of x] by simp
    have low: "2 powr of_int ?e \<le> double x \<or> ?e = - 1022"
    proof (cases "- 1022 < ?e")
      case True
      with pos show ?thesis by (simp add: double_lower_binade)
    next
      case False
      with e_min show ?thesis by simp
    qed
    have "expo (double x) = ?e" using vpos e_min up low by (rule expo_eq)
    then have "quantum (double x) = ?q" by (simp add: quantum_def)
    then have "double x / quantum (double x) = of_int ?m"
      using v quantum_pos [of x] by simp
    with \<open>double x \<noteq> 0\<close> show ?thesis by (rule double_exact)
  qed
qed

lemma double_error:
  assumes "0 \<le> x"
  shows "double x \<le> x + x / 2 ^ 53 + 1 / 2 ^ 1075"
proof (cases "x = 0")
  case True
  then show ?thesis by simp
next
  case False
  with assms have pos: "0 < x" by simp
  let ?q = "quantum x"
  have "of_int (round_even (x / ?q)) \<le> x / ?q + 1 / 2" by (rule round_even_upper)
  then have "?q * of_int (round_even (x / ?q)) \<le> ?q * (x / ?q + 1 / 2)"
    using quantum_pos [of x] by (simp only: mult_le_cancel_left_pos)
  also have "\<dots> = x + ?q / 2" using quantum_pos [of x] by (simp add: field_simps)
  finally have d: "double x \<le> x + ?q / 2" using False by (simp add: double_def)
  have "?q / 2 \<le> x / 2 ^ 53 + 1 / 2 ^ 1075"
  proof (cases "- 1022 < expo x")
    case True
    with pos expo_lower [of x] quantum_scale' [of x] have "?q * 2 ^ 52 \<le> x" by simp
    then have "?q / 2 \<le> x / 2 ^ 53" by simp
    then show ?thesis by (smt (verit) zero_le_divide_1_iff zero_le_numeral zero_le_power)
  next
    case False
    then have "expo x = - 1022" by (simp add: expo_def max_def split: if_splits)
    then have "?q = 2 powr (- 1074)" by (simp add: quantum_def)
    also have "\<dots> = 1 / 2 ^ 1074" by (simp add: powr_minus_divide)
    finally have "?q / 2 = 1 / 2 ^ 1075" by simp
    with pos show ?thesis by simp
  qed
  with d show ?thesis by linarith
qed

lemma double_stall:
  assumes "0 \<le> s" and "s < 1 / 2 ^ 53"
  shows "double (1 + s) = 1"
proof -
  have pos: "0 < 1 + s" using assms(1) by simp
  have "expo (1 + s) = 0" using assms by (intro expo_eq) simp_all
  then have q: "quantum (1 + s) = 1 / 2 ^ 52"
    by (simp add: quantum_def powr_minus_divide)
  have r: "(1 + s) / quantum (1 + s) = 2 ^ 52 + s * 2 ^ 52" by (simp add: q field_simps)
  have small: "s * 2 ^ 52 < 1 / 2" using assms(2) by simp
  have nn: "0 \<le> s * 2 ^ 52" using assms(1) by simp
  have fl: "\<lfloor>(2::real) ^ 52 + s * 2 ^ 52\<rfloor> = 2 ^ 52"
    using small nn by (intro floor_unique) simp_all
  have "round_even (2 ^ 52 + s * 2 ^ 52) = 2 ^ 52"
    using small fl by (simp add: round_even_def Let_def)
  with pos q r show ?thesis by (simp add: double_def)
qed

text \<open>
  Where a sum is the summand again, and where it is not: below \<open>2^49\<close> two neighbouring
  doubles are at most \<open>1/16\<close> apart.
\<close>

lemma double_stall_big:
  assumes "0 \<le> s" and "s < 1"
  shows "double (2 ^ 53 + s) = 2 ^ 53"
proof -
  define v where "v = 2 ^ 53 + s"
  have pos: "0 < v" unfolding v_def using assms(1) by (simp add: add_pos_nonneg)
  have "expo v = 53" unfolding v_def using assms by (intro expo_eq) simp_all
  then have q: "quantum v = 2" by (simp add: quantum_def)
  have r: "v / 2 = 2 ^ 52 + s / 2"
    by (simp add: v_def add_divide_distrib)
  have small: "s / 2 < 1 / 2" using assms(2) by simp
  have nn: "0 \<le> s / 2" using assms(1) by simp
  have fl: "\<lfloor>(2::real) ^ 52 + s / 2\<rfloor> = 2 ^ 52"
    using small nn by (intro floor_unique) simp_all
  have re: "round_even (2 ^ 52 + s / 2) = 2 ^ 52"
    using small fl by (simp add: round_even_def Let_def)
  have "double v = quantum v * of_int (round_even (v / quantum v))"
    using pos by (simp add: double_def)
  also have "\<dots> = 2 * of_int (2 ^ 52)" by (simp only: q r re)
  also have "\<dots> = 2 ^ 53" by simp
  finally show ?thesis unfolding v_def .
qed

lemma double_succ:
  assumes "0 < x" and "double x = x"
  shows "double (x + quantum x) = x + quantum x"
proof -
  let ?q = "quantum x" and ?m = "round_even (x / quantum x)" and ?e = "expo x"
  have xne: "x \<noteq> 0" using assms(1) by simp
  have v: "x = ?q * of_int ?m" using xne assms(2) by (simp add: double_def)
  have qpos: "0 < ?q" by (rule quantum_pos)
  have sum: "x + ?q = ?q * of_int (?m + 1)"
    using v by (simp add: algebra_simps)
  have spos: "0 < x + ?q" using assms(1) qpos by simp
  have "x / ?q = of_int ?m" using v qpos by (simp add: field_simps)
  with ratio_upper [OF assms(1)] have "(of_int ?m :: real) < 2 ^ 53" by simp
  then have "(of_int ?m :: real) < of_int (2 ^ 53)" by simp
  then have mlt: "?m < 2 ^ 53" by (simp only: of_int_less_iff)
  have e_min: "- 1022 \<le> ?e" by (simp add: expo_def)
  show ?thesis
  proof (cases "?m + 1 = 2 ^ 53")
    case True
    then have "x + ?q = ?q * 2 ^ 53" using sum by simp
    then have val: "x + ?q = 2 powr (of_int (?e + 1))"
      using quantum_scale [of x] by (simp add: add.commute)
    have "expo (x + ?q) = ?e + 1"
      using spos e_min val by (intro expo_eq) simp_all
    then have "quantum (x + ?q) = 2 powr (of_int (?e + 1) - 52)"
      by (simp add: quantum_def)
    moreover have "2 powr (of_int (?e + 1)) / 2 powr (of_int (?e + 1) - 52) = (2::real) powr 52"
      by (simp add: powr_diff [symmetric])
    ultimately have "(x + ?q) / quantum (x + ?q) = of_int (2 ^ 52)"
      using val by simp
    with spos show ?thesis by (intro double_exact [of _ "2 ^ 52"]) simp_all
  next
    case False
    with mlt have "?m + 1 < 2 ^ 53" by simp
    then have "(of_int (?m + 1) :: real) < of_int (2 ^ 53)" by (simp only: of_int_less_iff)
    then have "?q * of_int (?m + 1) < ?q * 2 ^ 53" using qpos by simp
    then have up: "x + ?q < 2 powr (of_int ?e + 1)"
      using sum quantum_scale [of x] by simp
    have low: "2 powr of_int ?e \<le> x + ?q \<or> ?e = - 1022"
    proof (cases "- 1022 < ?e")
      case True
      with assms(1) expo_lower [of x] qpos show ?thesis by simp
    next
      case False
      with e_min show ?thesis by simp
    qed
    have "expo (x + ?q) = ?e" using spos e_min up low by (rule expo_eq)
    then have "quantum (x + ?q) = ?q" by (simp add: quantum_def)
    then have "(x + ?q) / quantum (x + ?q) = of_int (?m + 1)"
      using sum qpos by simp
    with spos show ?thesis by (intro double_exact [of _ "?m + 1"]) simp_all
  qed
qed

lemma double_sixteenth: "double (1 / 16) = 1 / 16"
proof -
  have "(1 / 16 :: real) / 2 powr (of_int (- 4) - 52) = of_int (2 ^ 52)"
    by (simp add: powr_minus_divide)
  moreover have "2 powr of_int (- 4) \<le> (1 / 16 :: real)" by (simp add: powr_minus_divide)
  moreover have "(1 / 16 :: real) < 2 powr (of_int (- 4) + 1)" by (simp add: powr_minus_divide)
  ultimately show ?thesis by (intro double_dyadic [of _ "- 4" "2 ^ 52"]) simp_all
qed

lemma double_step_strict:
  assumes "0 \<le> x" and "double x = x" and "x < 2 ^ 49" and "1 / 16 \<le> d"
  shows "x < double (x + d)"
proof (cases "x = 0")
  case True
  have "double (1 / 16) \<le> double d" using assms(4) by (intro double_mono) simp_all
  then show ?thesis using True by (simp add: double_sixteenth)
next
  case False
  with assms(1) have pos: "0 < x" by simp
  have "log 2 x < 49" using pos assms(3) by (simp add: log_less_iff)
  then have "\<lfloor>log 2 x\<rfloor> \<le> 48" by linarith
  then have "expo x \<le> 48" using pos by (simp add: expo_def)
  then have "of_int (expo x) - 52 \<le> (- 4 :: real)" by simp
  then have "quantum x \<le> 2 powr (- 4)"
    unfolding quantum_def by (simp only: powr_le_cancel_iff) 
  also have "\<dots> = 1 / 16" by (simp add: powr_minus_divide)
  finally have q: "quantum x \<le> 1 / 16" .
  have "double (x + quantum x) \<le> double (x + d)"
    using pos quantum_pos [of x] q assms(4) by (intro double_mono) simp_all
  with double_succ [OF pos assms(2)] quantum_pos [of x] show ?thesis by simp
qed

section \<open>Properties of the frame-index player\<close>

subsection \<open>The sample index and the test of an entry\<close>

lemma has_pos3_iff: "has_pos3 e \<longleftrightarrow> (\<exists>x y z. e = Entry (Some [x, y, z]))"
proof (cases e)
  case (Entry po)
  show ?thesis
  proof (cases po)
    case None
    with Entry show ?thesis by simp
  next
    case (Some ps)
    have "length ps = 3 \<longleftrightarrow> (\<exists>x y z. ps = [x, y, z])"
      by (auto simp: length_Suc_conv numeral_3_eq_3)
    with Entry Some show ?thesis by simp
  qed
qed simp_all

lemma js_rem_nonneg: "0 \<le> a \<Longrightarrow> 0 < b \<Longrightarrow> js_rem a b = Some (a mod b)"
  by (cases "a = 0") (simp_all add: js_rem_def)

lemma sample_index_nonneg:
  "0 \<le> f \<Longrightarrow> positions \<noteq> [] \<Longrightarrow>
   sample_index f positions = Some (\<lfloor>f\<rfloor> mod int (length positions))"
  by (simp add: sample_index_def js_rem_nonneg)


lemma sample_index_NaN_iff: "sample_index f positions = None \<longleftrightarrow> positions = []"
  by (simp add: sample_index_def js_rem_def)

lemma target_None_iff:
  "(case e of Entry (Some [x, y, z]) \<Rightarrow> Some (f x y z) | _ \<Rightarrow> None) = None \<longleftrightarrow> \<not> has_pos3 e"
  by (auto simp: has_pos3_iff split: entry.splits option.splits list.splits)

subsection \<open>One planet of the loop\<close>

lemma animate_planet_skip:
  assumes "planetMeshes s (name p) = None \<or> planet_target p (frameIndex s) (planetPositions s) = None"
  shows "animate_planet p s = Inr s"
proof (cases "planetPositions s (name p)")
  case None
  then show ?thesis by (simp add: animate_planet_def)
next
  case (Some positions)
  note pos = Some
  show ?thesis
  proof (cases "planetMeshes s (name p)")
    case None
    with pos show ?thesis by (simp add: animate_planet_def)
  next
    case (Some m)
    with assms have tn: "planet_target p (frameIndex s) (planetPositions s) = None" by simp
    show ?thesis
    proof (cases "positions = []")
      case True
      with pos Some show ?thesis by (simp add: animate_planet_def)
    next
      case False
      with tn pos have "\<not> has_pos3 (js_index positions (sample_index (frameIndex s) positions))"
        by (simp add: planet_target_def target_None_iff)
      with pos Some False show ?thesis by (simp add: animate_planet_def Let_def)
    qed
  qed
qed

lemma animate_planet_set:
  assumes "planetMeshes s (name p) = Some m"
    and "planet_target p (frameIndex s) (planetPositions s) = Some v"
  shows "\<exists>c. animate_planet p s = Inr (s\<lparr>planetMeshes := (planetMeshes s)(name p \<mapsto> v), console := c\<rparr>)"
proof -
  from assms(2) obtain positions where pos: "planetPositions s (name p) = Some positions"
    and ne: "positions \<noteq> []"
    by (auto simp: planet_target_def split: option.splits if_splits)
  let ?e = "js_index positions (sample_index (frameIndex s) positions)"
  from assms(2) pos ne have "has_pos3 ?e"
    using target_None_iff [of "\<lambda>x y z. (Num (x * ORBIT_SCALE p), Num (y * ORBIT_SCALE p), Num (z * ORBIT_SCALE p))" ?e]
    by (auto simp: planet_target_def)
  then obtain x y z where e: "?e = Entry (Some [x, y, z])"
    by (auto simp: has_pos3_iff)
  with assms(2) pos ne
  have v: "v = (Num (x * ORBIT_SCALE p), Num (y * ORBIT_SCALE p), Num (z * ORBIT_SCALE p))"
    by (simp add: planet_target_def)
  show ?thesis
  proof (cases "name p = ''Mars'' \<and> js_fmod (frameIndex s) 60 = Some 0")
    case True
    with pos ne assms(1) e v show ?thesis
      by (auto simp: animate_planet_def Let_def coord_def)
  next
    case False
    with pos ne assms(1) e v
    have "animate_planet p s = Inr (s\<lparr>planetMeshes := (planetMeshes s)(name p \<mapsto> v)\<rparr>)"
      by (auto simp: animate_planet_def Let_def coord_def)
    then show ?thesis
      by (intro exI [of _ "console s"]) simp
  qed
qed

lemma animate_planet_total: "\<exists>s'. animate_planet p s = Inr s'"
proof (cases "planetMeshes s (name p) = None
    \<or> planet_target p (frameIndex s) (planetPositions s) = None")
  case True
  then show ?thesis by (simp add: animate_planet_skip)
next
  case False
  then obtain m v where "planetMeshes s (name p) = Some m"
    and "planet_target p (frameIndex s) (planetPositions s) = Some v"
    by auto
  from animate_planet_set [OF this] show ?thesis by blast
qed

lemma animate_planet_frame:
  assumes "animate_planet p s = Inr s'"
  shows "frameIndex s' = frameIndex s \<and> planetPositions s' = planetPositions s
    \<and> orbitPath s' = orbitPath s
    \<and> (\<forall>n. (planetMeshes s' n = None) = (planetMeshes s n = None))
    \<and> (\<forall>n. n \<noteq> name p \<longrightarrow> planetMeshes s' n = planetMeshes s n)"
proof (cases "planetMeshes s (name p) = None
    \<or> planet_target p (frameIndex s) (planetPositions s) = None")
  case True
  then have "animate_planet p s = Inr s" by (rule animate_planet_skip)
  with assms show ?thesis by simp
next
  case False
  then obtain m v where m: "planetMeshes s (name p) = Some m"
    and "planet_target p (frameIndex s) (planetPositions s) = Some v"
    by auto
  from animate_planet_set [OF this] assms m show ?thesis
    by (auto split: if_splits)
qed



lemma planet_target_empty:
  assumes "pp (name p) = None \<or> pp (name p) = Some []"
  shows "planet_target p f pp = None"
  using assms by (auto simp: planet_target_def)

subsection \<open>The loop and the frame\<close>

lemma for_each_animate:
  "\<exists>s'. for_each animate_planet ps s = Inr s'
     \<and> frameIndex s' = frameIndex s \<and> planetPositions s' = planetPositions s
     \<and> orbitPath s' = orbitPath s
     \<and> (\<forall>n. (planetMeshes s' n = None) = (planetMeshes s n = None))
     \<and> (\<forall>n. n \<notin> name ` set ps \<longrightarrow> planetMeshes s' n = planetMeshes s n)"
proof (induction ps arbitrary: s)
  case Nil
  show ?case by simp
next
  case (Cons q qs)
  obtain s1 where s1: "animate_planet q s = Inr s1"
    using animate_planet_total by blast
  note f1 = animate_planet_frame [OF s1]
  from Cons.IH [of s1] obtain s' where s': "for_each animate_planet qs s1 = Inr s'"
    and f2: "frameIndex s' = frameIndex s1" "planetPositions s' = planetPositions s1"
      "orbitPath s' = orbitPath s1"
      "\<forall>n. (planetMeshes s' n = None) = (planetMeshes s1 n = None)"
      "\<forall>n. n \<notin> name ` set qs \<longrightarrow> planetMeshes s' n = planetMeshes s1 n"
    by blast
  have "for_each animate_planet (q # qs) s = Inr s'" using s1 s' by simp
  moreover have "\<forall>n. n \<notin> name ` set (q # qs) \<longrightarrow> planetMeshes s' n = planetMeshes s n"
    using f1 f2(5) by simp
  ultimately show ?case using f1 f2(1-4) by simp
qed

text \<open>A name all of whose planets set no position keeps its mesh.\<close>

lemma for_each_untouched:
  assumes "\<forall>q\<in>set ps. name q = n \<longrightarrow>
      planetMeshes s n = None \<or> planet_target q (frameIndex s) (planetPositions s) = None"
    and "for_each animate_planet ps s = Inr s'"
  shows "planetMeshes s' n = planetMeshes s n"
  using assms
proof (induction ps arbitrary: s)
  case Nil
  then show ?case by simp
next
  case (Cons q qs)
  obtain s1 where s1: "animate_planet q s = Inr s1"
    using animate_planet_total by blast
  note f1 = animate_planet_frame [OF s1]
  have keep: "planetMeshes s1 n = planetMeshes s n"
  proof (cases "name q = n")
    case True
    with Cons.prems(1) have "animate_planet q s = Inr s"
      by (intro animate_planet_skip) auto
    with s1 show ?thesis by simp
  next
    case False
    with f1 show ?thesis by simp
  qed
  have "\<forall>r\<in>set qs. name r = n \<longrightarrow>
      planetMeshes s1 n = None \<or> planet_target r (frameIndex s1) (planetPositions s1) = None"
    using Cons.prems(1) f1 keep by simp
  moreover have "for_each animate_planet qs s1 = Inr s'"
    using Cons.prems(2) s1 by simp
  ultimately have "planetMeshes s' n = planetMeshes s1 n" by (rule Cons.IH)
  with keep show ?case by simp
qed


lemma animate_frame_total: "\<exists>s'. animate_frame step ps s = Inr s'"
  using for_each_animate [of ps s] by (auto simp: animate_frame_def)

lemma animate_frame_Inr:
  assumes "animate_frame step ps s = Inr s'"
  shows "\<exists>s1. for_each animate_planet ps s = Inr s1 \<and> s' = s1\<lparr>frameIndex := double (frameIndex s1 + step)\<rparr>"
  using assms by (auto simp: animate_frame_def split: sum.splits)


lemma animate_frame_untouched:
  assumes "\<forall>q\<in>set ps. name q = n \<longrightarrow>
      planetMeshes s n = None \<or> planet_target q (frameIndex s) (planetPositions s) = None"
    and "animate_frame step ps s = Inr s'"
  shows "planetMeshes s' n = planetMeshes s n \<and> planetPositions s' = planetPositions s"
proof -
  from assms(2) obtain s1 where s1: "for_each animate_planet ps s = Inr s1"
    and eq: "s' = s1\<lparr>frameIndex := double (frameIndex s1 + step)\<rparr>"
    using animate_frame_Inr by blast
  from for_each_untouched [OF assms(1) s1] for_each_animate [of ps s] s1 eq
  show ?thesis by simp
qed

lemma frames_empty_series:
  assumes "planetPositions s n = None \<or> planetPositions s n = Some []"
  shows "\<exists>s'. frames step ps k s = Inr s' \<and> planetMeshes s' n = planetMeshes s n
           \<and> planetPositions s' = planetPositions s"
  using assms
proof (induction k arbitrary: s)
  case 0
  show ?case by simp
next
  case (Suc k)
  obtain s1 where s1: "animate_frame step ps s = Inr s1"
    using animate_frame_total by blast
  have "\<forall>q\<in>set ps. name q = n \<longrightarrow>
      planetMeshes s n = None \<or> planet_target q (frameIndex s) (planetPositions s) = None"
    using Suc.prems by (auto simp: planet_target_empty)
  from animate_frame_untouched [OF this s1]
  have keep: "planetMeshes s1 n = planetMeshes s n" "planetPositions s1 = planetPositions s"
    by simp_all
  with Suc.prems have "planetPositions s1 n = None \<or> planetPositions s1 n = Some []" by simp
  from Suc.IH [OF this] obtain s' where "frames step ps k s1 = Inr s'"
    and "planetMeshes s' n = planetMeshes s1 n" and "planetPositions s' = planetPositions s1"
    by blast
  with s1 keep show ?case by simp
qed

lemma frames_positions:
  "\<exists>s'. frames step ps k s = Inr s' \<and> planetPositions s' = planetPositions s"
proof (induction k arbitrary: s)
  case 0
  show ?case by simp
next
  case (Suc k)
  obtain s1 where s1: "animate_frame step ps s = Inr s1"
    using animate_frame_total by blast
  then obtain u where "for_each animate_planet ps s = Inr u"
    and "s1 = u\<lparr>frameIndex := double (frameIndex u + step)\<rparr>"
    using animate_frame_Inr by blast
  with for_each_animate [of ps s] have "planetPositions s1 = planetPositions s" by simp
  with Suc.IH [of s1] s1 show ?case by simp
qed

text \<open>
  Two runs of the loop from states with the same frame counter, the same stored arrays
  and meshes for the same names: every mesh position is the same in both, or is the
  position each state had before (\<open>b1\<close>, \<open>b2\<close>).
\<close>

lemma for_each_deterministic:
  assumes "frameIndex s1 = frameIndex s2" and "planetPositions s1 = planetPositions s2"
    and "\<forall>n. (planetMeshes s1 n = None) = (planetMeshes s2 n = None)"
    and "\<forall>n. planetMeshes s1 n = planetMeshes s2 n
            \<or> (planetMeshes s1 n = b1 n \<and> planetMeshes s2 n = b2 n)"
    and "for_each animate_planet ps s1 = Inr s1'"
    and "for_each animate_planet ps s2 = Inr s2'"
  shows "\<forall>n. planetMeshes s1' n = planetMeshes s2' n
            \<or> (planetMeshes s1' n = b1 n \<and> planetMeshes s2' n = b2 n)"
  using assms
proof (induction ps arbitrary: s1 s2)
  case Nil
  then show ?case by simp
next
  case (Cons q qs)
  obtain u1 where u1: "animate_planet q s1 = Inr u1"
    using animate_planet_total by blast
  obtain u2 where u2: "animate_planet q s2 = Inr u2"
    using animate_planet_total by blast
  note f1 = animate_planet_frame [OF u1] and f2 = animate_planet_frame [OF u2]
  have rest: "for_each animate_planet qs u1 = Inr s1'" "for_each animate_planet qs u2 = Inr s2'"
    using Cons.prems(5,6) u1 u2 by simp_all
  have step: "\<forall>n. planetMeshes u1 n = planetMeshes u2 n
            \<or> (planetMeshes u1 n = b1 n \<and> planetMeshes u2 n = b2 n)"
  proof (cases "planetMeshes s1 (name q) = None
      \<or> planet_target q (frameIndex s1) (planetPositions s1) = None")
    case True
    then have "animate_planet q s1 = Inr s1" by (rule animate_planet_skip)
    moreover from True Cons.prems(1,2,3)
    have "planetMeshes s2 (name q) = None
      \<or> planet_target q (frameIndex s2) (planetPositions s2) = None" by simp
    then have "animate_planet q s2 = Inr s2" by (rule animate_planet_skip)
    ultimately show ?thesis using u1 u2 Cons.prems(4) by simp
  next
    case False
    then obtain m1 v where m1: "planetMeshes s1 (name q) = Some m1"
      and v1: "planet_target q (frameIndex s1) (planetPositions s1) = Some v" by auto
    from m1 Cons.prems(3) obtain m2 where m2: "planetMeshes s2 (name q) = Some m2"
      by (metis option.exhaust)
    from v1 Cons.prems(1,2)
    have v2: "planet_target q (frameIndex s2) (planetPositions s2) = Some v" by simp
    from animate_planet_set [OF m1 v1] u1
    have w1: "planetMeshes u1 = (planetMeshes s1)(name q \<mapsto> v)" by auto
    from animate_planet_set [OF m2 v2] u2
    have w2: "planetMeshes u2 = (planetMeshes s2)(name q \<mapsto> v)" by auto
    show ?thesis using w1 w2 Cons.prems(4) by simp
  qed
  have "frameIndex u1 = frameIndex u2" "planetPositions u1 = planetPositions u2"
    "\<forall>n. (planetMeshes u1 n = None) = (planetMeshes u2 n = None)"
    using f1 f2 Cons.prems(1,2,3) by simp_all
  from Cons.IH [OF this step rest] show ?case .
qed

subsection \<open>The loader\<close>

text \<open>After the filter, no callback of \<open>map\<close> throws.\<close>

lemma map_err_scaled:
  "\<exists>pts. map_err (scaled_point k) (filter has_pos3 data) = Inr pts
     \<and> list_all2 (\<lambda>e v. \<exists>x y z. e = Entry (Some [x, y, z])
                           \<and> v = (Num (x * k), Num (y * k), Num (z * k)))
         (filter has_pos3 data) pts"
proof (induction data)
  case Nil
  show ?case by simp
next
  case (Cons e es)
  then obtain pts where pts: "map_err (scaled_point k) (filter has_pos3 es) = Inr pts"
    and rel: "list_all2 (\<lambda>e v. \<exists>x y z. e = Entry (Some [x, y, z])
                           \<and> v = (Num (x * k), Num (y * k), Num (z * k)))
         (filter has_pos3 es) pts"
    by blast
  show ?case
  proof (cases "has_pos3 e")
    case False
    with pts rel show ?thesis by simp
  next
    case True
    then obtain x y z where e: "e = Entry (Some [x, y, z])"
      by (auto simp: has_pos3_iff)
    then have "scaled_point k e = Inr (Num (x * k), Num (y * k), Num (z * k))"
      by (simp add: scaled_point_def coord_def)
    with True pts rel e show ?thesis by simp
  qed
qed

lemma on_data_ok:
  "\<exists>pts. map_err (scaled_point (ORBIT_SCALE p)) (filter has_pos3 data) = Inr pts
     \<and> on_data p data s =
         (None, s\<lparr>planetPositions := (planetPositions s)(name p \<mapsto> data),
                  orbitPath := (orbitPath s)(name p \<mapsto> pts),
                  console := console s @ [Loaded (length data) (name p),
                                          Samples (name p) (take 5 data)]\<rparr>)"
proof -
  from map_err_scaled [of "ORBIT_SCALE p" data] obtain pts
    where "map_err (scaled_point (ORBIT_SCALE p)) (filter has_pos3 data) = Inr pts" by blast
  then show ?thesis by (simp add: on_data_def Let_def)
qed

lemma planet_promise_fields [simp]:
  "frameIndex (planet_promise p r s) = frameIndex s"
  "planetMeshes (planet_promise p r s) = planetMeshes s"
proof -
  show "frameIndex (planet_promise p r s) = frameIndex s"
  proof (cases r)
    case (Inl err)
    then show ?thesis by (simp add: planet_promise_def)
  next
    case (Inr data)
    with on_data_ok [of p data s] show ?thesis by (auto simp: planet_promise_def)
  qed
  show "planetMeshes (planet_promise p r s) = planetMeshes s"
  proof (cases r)
    case (Inl err)
    then show ?thesis by (simp add: planet_promise_def)
  next
    case (Inr data)
    with on_data_ok [of p data s] show ?thesis by (auto simp: planet_promise_def)
  qed
qed

lemma planet_promise_positions:
  "planetPositions (planet_promise p r s) n
     = (if name p = n then (case r of Inl err \<Rightarrow> planetPositions s n | Inr data \<Rightarrow> Some data)
        else planetPositions s n)"
proof (cases r)
  case (Inl err)
  then show ?thesis by (simp add: planet_promise_def)
next
  case (Inr data)
  with on_data_ok [of p data s] show ?thesis by (auto simp: planet_promise_def)
qed

lemma planet_promise_orbit:
  "orbitPath (planet_promise p r s) n
     = (if name p = n
        then (case r of
                Inl err \<Rightarrow> orbitPath s n
              | Inr data \<Rightarrow>
                  (case map_err (scaled_point (ORBIT_SCALE p)) (filter has_pos3 data) of
                     Inl err \<Rightarrow> orbitPath s n
                   | Inr pts \<Rightarrow> Some pts))
        else orbitPath s n)"
proof (cases r)
  case (Inl err)
  then show ?thesis by (simp add: planet_promise_def)
next
  case (Inr data)
  with on_data_ok [of p data s] show ?thesis by (auto simp: planet_promise_def)
qed

lemma settle_Cons: "settle ((p, r) # rs) s = settle rs (planet_promise p r s)"
  by (simp add: settle_def)

lemma settle_cong:
  assumes "planetPositions s1 n = planetPositions s2 n" and "orbitPath s1 n = orbitPath s2 n"
  shows "planetPositions (settle rs s1) n = planetPositions (settle rs s2) n
       \<and> orbitPath (settle rs s1) n = orbitPath (settle rs s2) n"
  using assms
proof (induction rs arbitrary: s1 s2)
  case Nil
  then show ?case by (simp add: settle_def)
next
  case (Cons pr rs)
  obtain p r where pr: "pr = (p, r)" by (cases pr)
  have a: "planetPositions (planet_promise p r s1) n = planetPositions (planet_promise p r s2) n"
    using Cons.prems by (simp add: planet_promise_positions split: sum.splits)
  have b: "orbitPath (planet_promise p r s1) n = orbitPath (planet_promise p r s2) n"
    using Cons.prems by (simp add: planet_promise_orbit split: sum.splits)
  from Cons.IH [OF a b] pr show ?case by (simp add: settle_Cons)
qed

lemma settle_own_responses:
  "planetPositions (settle rs s) n
     = planetPositions (settle (filter (\<lambda>(p, r). name p = n) rs) s) n
   \<and> orbitPath (settle rs s) n = orbitPath (settle (filter (\<lambda>(p, r). name p = n) rs) s) n"
proof (induction rs arbitrary: s)
  case Nil
  show ?case by simp
next
  case (Cons pr rs)
  obtain p r where pr: "pr = (p, r)" by (cases pr)
  show ?case
  proof (cases "name p = n")
    case True
    with Cons.IH [of "planet_promise p r s"] pr show ?thesis by (simp add: settle_Cons)
  next
    case False
    then have "planetPositions (planet_promise p r s) n = planetPositions s n"
      and "orbitPath (planet_promise p r s) n = orbitPath s n"
      by (simp_all add: planet_promise_positions planet_promise_orbit)
    from settle_cong [OF this] Cons.IH [of "planet_promise p r s"] pr False
    show ?thesis by (simp add: settle_Cons)
  qed
qed

lemma settle_failures:
  assumes "\<forall>(p, r)\<in>set rs. name p = n \<longrightarrow> isl r"
  shows "planetPositions (settle rs s) n = planetPositions s n"
  using assms
proof (induction rs arbitrary: s)
  case Nil
  show ?case by (simp add: settle_def)
next
  case (Cons pr rs)
  obtain p r where pr: "pr = (p, r)" by (cases pr)
  have "planetPositions (planet_promise p r s) n = planetPositions s n"
    using Cons.prems pr by (cases r) (auto simp: planet_promise_positions)
  moreover have "planetPositions (settle rs (planet_promise p r s)) n
                 = planetPositions (planet_promise p r s) n"
    using Cons.prems by (intro Cons.IH) simp
  ultimately show ?case using pr by (simp add: settle_Cons)
qed

subsection \<open>Evaluating the scenarios\<close>

lemmas scenario_defs =
  scenario_state_def planet_promise_def on_data_def init_def create_planet_def
  scenario_planet_def mk_planet_def scenario_samples_def short_record_file_def
  scaled_point_def coord_def

lemmas frame_defs =
  position_after_def animate_frame_def animate_planet_def sample_index_def js_rem_def
  js_index_def Let_def

lemma init_scenario:
  "init [scenario_planet c] =
     \<lparr>frameIndex = 0, planetPositions = Map.empty,
      planetMeshes = [''Body'' \<mapsto> (Num 0, Num 0, Num 0)], orbitPath = [''Body'' \<mapsto> []],
      console = []\<rparr>"
  by (simp add: init_def create_planet_def scenario_planet_def mk_planet_def)

lemma scenario_planet_fields [simp]:
  "name (scenario_planet c) = ''Body''" "ORBIT_SCALE (scenario_planet c) = c"
  by (simp_all add: scenario_planet_def mk_planet_def)

subsection \<open>The frame counter\<close>

lemma animate_frame_counter:
  "\<exists>s'. animate_frame c qs s = Inr s' \<and> frameIndex s' = double (frameIndex s + c)"
proof -
  obtain s' where s': "animate_frame c qs s = Inr s'"
    using animate_frame_total by blast
  then obtain u where "for_each animate_planet qs s = Inr u"
    and "s' = u\<lparr>frameIndex := double (frameIndex u + c)\<rparr>"
    using animate_frame_Inr by blast
  with for_each_animate [of qs s] s' show ?thesis by simp
qed

lemma init_frameIndex: "frameIndex (fold create_planet ps s) = frameIndex s"
  by (induction ps arbitrary: s) (simp_all add: create_planet_def)

lemma FRAME_SPEED_lower: "1 / 16 \<le> FRAME_SPEED"
proof -
  have "double (1 / 16) \<le> double (1 / 10)" by (intro double_mono) simp_all
  then show ?thesis by (simp add: FRAME_SPEED_def double_sixteenth)
qed

lemma FRAME_SPEED_upper: "FRAME_SPEED < 1"
proof -
  have "double (1 / 10) \<le> double (1 / 2)" by (intro double_mono) simp_all
  moreover have "double (1 / 2) = 1 / 2"
  proof -
    have "(1 / 2 :: real) / 2 powr (of_int (- 1) - 52) = of_int (2 ^ 52)"
      by (simp add: powr_minus_divide)
    moreover have "2 powr of_int (- 1) \<le> (1 / 2 :: real)" by (simp add: powr_minus_divide)
    moreover have "(1 / 2 :: real) < 2 powr (of_int (- 1) + 1)" by (simp add: powr_minus_divide)
    ultimately show ?thesis by (intro double_dyadic [of _ "- 1" "2 ^ 52"]) simp_all
  qed
  ultimately show ?thesis by (simp add: FRAME_SPEED_def)
qed

section \<open>Properties of the orbit-line player\<close>

lemma animate_planet2_fields [simp]:
  "t (animate_planet2 p s) = t s"
  "speed (animate_planet2 p s) = speed s"
  "orbitsVisible (animate_planet2 p s) = orbitsVisible s"
  "sun_rotation_z (animate_planet2 p s) = sun_rotation_z s"
  "orbitLines (animate_planet2 p s) = orbitLines s"
  "loadPlanets_at (animate_planet2 p s) = loadPlanets_at s"
  "loading_shown (animate_planet2 p s) = loading_shown s"
  by (simp_all add: animate_planet2_def Let_def split: option.splits)

lemma animate_planet2_meshes:
  "(planetMeshes2 (animate_planet2 p s) n = None) = (planetMeshes2 s n = None)"
  "n \<noteq> name2 p \<Longrightarrow> planetMeshes2 (animate_planet2 p s) n = planetMeshes2 s n"
  "orbitLines s (name2 p) = None \<Longrightarrow> animate_planet2 p s = s"
  by (simp_all add: animate_planet2_def Let_def split: option.splits)

lemma animate_planet2_set:
  assumes "planetMeshes2 s (name2 p) = Some m" and "orbitLines s (name2 p) = Some orbit"
  shows "map_option position (planetMeshes2 (animate_planet2 p s) (name2 p))
         = Some (from_buffer (points orbit) (orbit_index (t s) (points orbit)))"
  using assms by (simp add: animate_planet2_def Let_def)

lemma fold_animate_planet2_fields [simp]:
  "t (fold animate_planet2 ps s) = t s"
  "speed (fold animate_planet2 ps s) = speed s"
  "orbitsVisible (fold animate_planet2 ps s) = orbitsVisible s"
  "sun_rotation_z (fold animate_planet2 ps s) = sun_rotation_z s"
  "orbitLines (fold animate_planet2 ps s) = orbitLines s"
  "loadPlanets_at (fold animate_planet2 ps s) = loadPlanets_at s"
  "loading_shown (fold animate_planet2 ps s) = loading_shown s"
  by (induction ps arbitrary: s; simp)+

lemma fold_animate_planet2_dom:
  "(planetMeshes2 (fold animate_planet2 ps s) n = None) = (planetMeshes2 s n = None)"
  by (induction ps arbitrary: s) (simp_all add: animate_planet2_meshes)

lemma fold_animate_planet2_unloaded:
  "orbitLines s n = None \<Longrightarrow> planetMeshes2 (fold animate_planet2 ps s) n = planetMeshes2 s n"
proof (induction ps arbitrary: s)
  case Nil
  show ?case by simp
next
  case (Cons q qs)
  have "planetMeshes2 (animate_planet2 q s) n = planetMeshes2 s n"
    using Cons.prems by (cases "n = name2 q") (simp_all add: animate_planet2_meshes)
  moreover have "orbitLines (animate_planet2 q s) n = None" using Cons.prems by simp
  ultimately show ?case using Cons.IH [of "animate_planet2 q s"] by simp
qed

lemma fold_animate_planet2_other:
  "n \<notin> name2 ` set ps \<Longrightarrow> planetMeshes2 (fold animate_planet2 ps s) n = planetMeshes2 s n"
  by (induction ps arbitrary: s) (simp_all add: animate_planet2_meshes)

lemma fold_animate_planet2_written:
  assumes "distinct (map name2 ps)" and "p \<in> set ps"
    and "planetMeshes2 s (name2 p) = Some m" and "orbitLines s (name2 p) = Some orbit"
  shows "map_option position (planetMeshes2 (fold animate_planet2 ps s) (name2 p))
         = Some (from_buffer (points orbit) (orbit_index (t s) (points orbit)))"
  using assms
proof (induction ps arbitrary: s m)
  case Nil
  then show ?case by simp
next
  case (Cons q qs)
  show ?case
  proof (cases "q = p")
    case True
    then have "name2 p \<notin> name2 ` set qs" using Cons.prems(1) by simp
    then have "planetMeshes2 (fold animate_planet2 qs (animate_planet2 p s)) (name2 p)
               = planetMeshes2 (animate_planet2 p s) (name2 p)"
      by (rule fold_animate_planet2_other)
    with True animate_planet2_set [OF Cons.prems(3,4)] show ?thesis by simp
  next
    case False
    with Cons.prems(2) have pin: "p \<in> set qs" by simp
    with Cons.prems(1) have "name2 q \<noteq> name2 p" by auto
    then have ne: "name2 p \<noteq> name2 q" by simp
    have "planetMeshes2 (animate_planet2 q s) (name2 p) = Some m"
      using ne Cons.prems(3) by (simp add: animate_planet2_meshes)
    moreover have "orbitLines (animate_planet2 q s) (name2 p) = Some orbit"
      using Cons.prems(4) by simp
    moreover have "distinct (map name2 qs)" using Cons.prems(1) by simp
    ultimately have "map_option position
        (planetMeshes2 (fold animate_planet2 qs (animate_planet2 q s)) (name2 p))
      = Some (from_buffer (points orbit) (orbit_index (t (animate_planet2 q s)) (points orbit)))"
      using pin Cons.IH by blast
    then show ?thesis by simp
  qed
qed

lemma animate2_fields [simp]:
  "t (animate2 ps s) = double (t s + speed s)"
  "speed (animate2 ps s) = speed s"
  "orbitsVisible (animate2 ps s) = orbitsVisible s"
  "sun_rotation_z (animate2 ps s) = double (sun_rotation_z s + double (2 / 1000))"
  "orbitLines (animate2 ps s) = orbitLines s"
  "loadPlanets_at (animate2 ps s) = loadPlanets_at s"
  "loading_shown (animate2 ps s) = loading_shown s"
  by (simp_all add: animate2_def)

lemma animate2_dom:
  "(planetMeshes2 (animate2 ps s) n = None) = (planetMeshes2 s n = None)"
  by (simp add: animate2_def fold_animate_planet2_dom)

lemma animate2_unloaded:
  "orbitLines s n = None \<Longrightarrow> planetMeshes2 (animate2 ps s) n = planetMeshes2 s n"
  by (simp add: animate2_def fold_animate_planet2_unloaded)

lemma funpow_animate2_unloaded:
  "orbitLines s n = None \<Longrightarrow>
   planetMeshes2 ((animate2 ps ^^ k) s) n = planetMeshes2 s n
   \<and> orbitLines ((animate2 ps ^^ k) s) n = None"
  by (induction k) (simp_all add: animate2_unloaded)

lemma load_from_fields [simp]:
  "t (load_from ps s) = t s"
  "speed (load_from ps s) = speed s"
  "orbitsVisible (load_from ps s) = orbitsVisible s"
  "orbitLines (load_from ps s) = orbitLines s"
  by (cases ps; simp)+

lemma resume_fields [simp]:
  "t (resume r s) = t s"
  "speed (resume r s) = speed s"
  "orbitsVisible (resume r s) = orbitsVisible s"
  by (simp_all add: resume_def split: loader.splits sum.splits)

lemma toggleOrbits_fields [simp]:
  "t (toggleOrbits s) = t s"
  "speed (toggleOrbits s) = speed s"
  "sun_rotation_z (toggleOrbits s) = sun_rotation_z s"
  "planetMeshes2 (toggleOrbits s) = planetMeshes2 s"
  "loadPlanets_at (toggleOrbits s) = loadPlanets_at s"
  "loading_shown (toggleOrbits s) = loading_shown s"
  "orbitsVisible (toggleOrbits s) = (\<not> orbitsVisible s)"
  "orbitLines (toggleOrbits s) n
     = map_option (\<lambda>l. l\<lparr>visible := \<not> orbitsVisible s\<rparr>) (orbitLines s n)"
  by (simp_all add: toggleOrbits_def Let_def)

lemma speed_buttons [simp]:
  "t (speedUp s) = t s" "speed (speedUp s) = double (speed s * (3 / 2))"
  "t (speedDown s) = t s" "speed (speedDown s) = double (speed s * double (7 / 10))"
  by (simp_all add: speedUp_def speedDown_def)

lemma run2_snoc: "run2 ps (es @ [e]) = step2 ps e (run2 ps es)"
  by (simp add: run2_def)

lemma boot2_fields [simp]: "t (boot2 ps) = 1" "speed (boot2 ps) = 1"
  by (simp_all add: boot2_def init2_def)

lemma boot2_unloaded: "orbitLines (boot2 ps) n = None"
  by (simp add: boot2_def init2_def)

lemma step2_speed_nonneg: "0 \<le> speed s \<Longrightarrow> 0 \<le> speed (step2 ps e s)"
proof (cases e)
  case SpeedUp
  assume "0 \<le> speed s"
  then have "0 \<le> double (speed s * (3 / 2))" by (intro double_nonneg) simp
  with SpeedUp show ?thesis by simp
next
  case SpeedDown
  assume a: "0 \<le> speed s"
  have "0 \<le> double (7 / 10)" by (intro double_nonneg) simp
  with a have "0 \<le> double (speed s * double (7 / 10))" by (intro double_nonneg) simp
  with SpeedDown show ?thesis by simp
qed simp_all

lemma run2_speed_nonneg: "0 \<le> speed (run2 ps es)"
proof (induction es rule: rev_induct)
  case Nil
  show ?case by (simp add: run2_def)
next
  case (snoc e es)
  then show ?case by (simp add: run2_snoc step2_speed_nonneg)
qed

text \<open>In every state of a run, \<open>t\<close> is a double that is not negative.\<close>

lemma run2_t_double: "0 \<le> t (run2 ps es) \<and> double (t (run2 ps es)) = t (run2 ps es)"
proof (induction es rule: rev_induct)
  case Nil
  show ?case by (simp add: run2_def)
next
  case (snoc e es)
  show ?case
  proof (cases e)
    case Frame
    have "0 \<le> t (run2 ps es) + speed (run2 ps es)"
      using snoc run2_speed_nonneg [of ps es] by simp
    then have "0 \<le> double (t (run2 ps es) + speed (run2 ps es))"
      and "double (double (t (run2 ps es) + speed (run2 ps es)))
           = double (t (run2 ps es) + speed (run2 ps es))"
      by (simp_all add: double_nonneg double_idem)
    with Frame show ?thesis by (simp add: run2_snoc)
  qed (use snoc in \<open>simp_all add: run2_snoc\<close>)
qed

lemma run2_t_mono: "t (run2 ps es) \<le> t (run2 ps (es @ [Frame]))"
proof -
  let ?s = "run2 ps es"
  have "double (t ?s) \<le> double (t ?s + speed ?s)"
    using run2_t_double [of ps es] run2_speed_nonneg [of ps es] by (intro double_mono) simp_all
  then show ?thesis using run2_t_double [of ps es] by (simp add: run2_snoc)
qed

text \<open>
  A click on the speed-down button multiplies \<open>speed\<close> by little more than 0.7. After 103
  clicks \<open>speed\<close> is below \<open>2^-53\<close>, half the distance from 1 to the next double, and
  the sum \<open>1 + speed\<close> is rounded to 1.
\<close>

lemma speed_down_bound:
  assumes "0 \<le> x"
  shows "double (x * double (7 / 10)) \<le> x * (7000001 / 10000000) + 1 / 2 ^ 100"
proof -
  define c where "c = double (7 / 10)"
  define u :: real where "u = 1 + 1 / 2 ^ 53"
  define k :: real where "k = 7000001 / 10000000"
  have c0: "0 \<le> c" unfolding c_def by (intro double_nonneg) simp
  have u0: "0 \<le> u" unfolding u_def by simp
  have "c \<le> 7 / 10 + 7 / 10 / 2 ^ 53 + 1 / 2 ^ 1075"
    unfolding c_def using double_error [of "7 / 10"] by simp
  then have "c * u \<le> (7 / 10 + 7 / 10 / 2 ^ 53 + 1 / 2 ^ 1075) * u"
    using u0 by (rule mult_right_mono)
  also have "\<dots> \<le> k" unfolding u_def k_def by simp
  finally have cu: "c * u \<le> k" .
  have y0: "0 \<le> x * c" using assms c0 by simp
  have "double (x * c) \<le> x * c + x * c / 2 ^ 53 + 1 / 2 ^ 1075"
    using y0 by (rule double_error)
  also have "x * c + x * c / 2 ^ 53 = x * (c * u)"
    unfolding u_def by (simp add: algebra_simps)
  finally have "double (x * c) \<le> x * (c * u) + 1 / 2 ^ 1075" .
  moreover have "x * (c * u) \<le> x * k" using cu assms by (rule mult_left_mono)
  moreover have "(1::real) / 2 ^ 1075 \<le> 1 / 2 ^ 100" by simp
  ultimately have "double (x * c) \<le> x * k + 1 / 2 ^ 100" by linarith
  then show ?thesis unfolding c_def k_def .
qed

lemma run2_speed_downs:
  "t (run2 ps (replicate n SpeedDown)) = 1
   \<and> speed (run2 ps (replicate n SpeedDown)) \<le> (7000001 / 10000000) ^ n + real n / 2 ^ 100"
proof (induction n)
  case 0
  show ?case by (simp add: run2_def)
next
  case (Suc n)
  let ?s = "run2 ps (replicate n SpeedDown)"
  let ?k = "7000001 / 10000000 :: real"
  have "replicate (Suc n) SpeedDown = replicate n SpeedDown @ [SpeedDown]"
    by (simp add: replicate_append_same)
  then have snoc: "run2 ps (replicate (Suc n) SpeedDown) = speedDown ?s"
    by (simp only: run2_snoc step2.simps)
  have "double (speed ?s * double (7 / 10)) \<le> speed ?s * ?k + 1 / 2 ^ 100"
    using run2_speed_nonneg [of ps "replicate n SpeedDown"] by (rule speed_down_bound)
  then have "speed (speedDown ?s) \<le> speed ?s * ?k + 1 / 2 ^ 100"
    by (simp only: speed_buttons)
  also have "\<dots> \<le> (?k ^ n + real n / 2 ^ 100) * ?k + 1 / 2 ^ 100"
    using Suc by (simp add: mult_right_mono)
  also have "\<dots> = ?k ^ Suc n + real n / 2 ^ 100 * ?k + 1 / 2 ^ 100"
    by (simp add: algebra_simps)
  also have "\<dots> \<le> ?k ^ Suc n + real n / 2 ^ 100 + 1 / 2 ^ 100"
  proof -
    have "real n / 2 ^ 100 * ?k \<le> real n / 2 ^ 100 * 1"
      by (intro mult_left_mono) simp_all
    then show ?thesis by simp
  qed
  also have "\<dots> = ?k ^ Suc n + real (Suc n) / 2 ^ 100"
    by (simp add: field_simps)
  finally show ?case using Suc snoc by simp
qed

lemma square_bound: "0 \<le> x \<Longrightarrow> x \<le> b \<Longrightarrow> b * b \<le> c \<Longrightarrow> x * x \<le> (c::real)"
  by (meson mult_mono order_trans)

lemma speed_power_bound:
  "(7000001 / 10000000) ^ 103 + real 103 / 2 ^ 100 < (1 / 2 ^ 53 :: real)"
proof -
  define k :: real where "k = 7000001 / 10000000"
  have k0: "0 \<le> k" unfolding k_def by simp
  have p1: "k \<le> 7000001 / 10 ^ 7" unfolding k_def by simp
  have "k * k \<le> 490000140000010000 / 10 ^ 18"
    by (rule square_bound [OF k0 p1]) simp
  then have p2: "k ^ 2 \<le> 490000140000010000 / 10 ^ 18" by (simp add: power2_eq_square)
  have "k ^ 2 * k ^ 2 \<le> 240100137200029401 / 10 ^ 18"
    by (rule square_bound [OF _ p2]) (simp_all add: k0)
  then have p4: "k ^ 4 \<le> 240100137200029401 / 10 ^ 18" by (simp add: power_add [symmetric])
  have "k ^ 4 * k ^ 4 \<le> 576480758834729423 / 10 ^ 19"
    by (rule square_bound [OF _ p4]) (simp_all add: k0)
  then have p8: "k ^ 8 \<le> 576480758834729423 / 10 ^ 19" by (simp add: power_add [symmetric])
  have "k ^ 8 * k ^ 8 \<le> 332330065306665466 / 10 ^ 20"
    by (rule square_bound [OF _ p8]) (simp_all add: k0)
  then have p16: "k ^ 16 \<le> 332330065306665466 / 10 ^ 20" by (simp add: power_add [symmetric])
  have "k ^ 16 * k ^ 16 \<le> 110443272306732534 / 10 ^ 22"
    by (rule square_bound [OF _ p16]) (simp_all add: k0)
  then have p32: "k ^ 32 \<le> 110443272306732534 / 10 ^ 22" by (simp add: power_add [symmetric])
  have "k ^ 32 * k ^ 32 \<le> 121977163978190735 / 10 ^ 27"
    by (rule square_bound [OF _ p32]) (simp_all add: k0)
  then have p64: "k ^ 64 \<le> 121977163978190735 / 10 ^ 27" by (simp add: power_add [symmetric])
  have "k ^ 103 = k ^ (64 + (32 + (4 + (2 + 1))))" by simp
  also have "\<dots> = k ^ 64 * (k ^ 32 * (k ^ 4 * (k ^ 2 * k ^ 1)))"
    by (simp only: power_add)
  also have "\<dots> = k ^ 64 * (k ^ 32 * (k ^ 4 * (k ^ 2 * k)))" by simp
  also have "\<dots> \<le> (121977163978190735 / 10 ^ 27) * ((110443272306732534 / 10 ^ 22) * ((240100137200029401 / 10 ^ 18) * ((490000140000010000 / 10 ^ 18) * (7000001 / 10 ^ 7))))"
    using p64 p32 p4 p2 p1 k0 by (intro mult_mono) simp_all
  also have "\<dots> < 9995 / (10000 * 2 ^ 53)" by simp
  finally have "k ^ 103 < 9995 / (10000 * 2 ^ 53)" .
  moreover have "real 103 / 2 ^ 100 < 5 / (10000 * 2 ^ 53)" by simp
  ultimately show ?thesis unfolding k_def by simp
qed

lemma run2_stalls: "t (run2 ps (replicate 103 SpeedDown @ [Frame])) = 1"
proof -
  let ?s = "run2 ps (replicate 103 SpeedDown)"
  have "speed ?s \<le> (7000001 / 10000000) ^ 103 + real 103 / 2 ^ 100"
    using run2_speed_downs [of ps 103] by simp
  also have "\<dots> < 1 / 2 ^ 53" by (rule speed_power_bound)
  finally have small: "speed ?s < 1 / 2 ^ 53" .
  have "double (1 + speed ?s) = 1"
    using run2_speed_nonneg [of ps "replicate 103 SpeedDown"] small by (rule double_stall)
  then show ?thesis using run2_speed_downs [of ps 103] by (simp add: run2_snoc)
qed

text \<open>
  The index of the orbit-line player. For a line without points it is NaN: the player
  tests that the line exists, not that it has points. For a counter \<open>c \<ge> 0\<close> and a line
  with points, the floor of the remainder of \<open>c / 2\<close> is \<open>\<lfloor>c / 2\<rfloor> mod count\<close>. A frame
  first adds \<open>speed\<close> to \<open>t\<close> and then moves each loaded planet to the vertex at that
  index.
\<close>

lemma orbit_index_empty: "orbit_index c [] = None"
  by (simp add: orbit_index_def js_fmod_def)




lemma run2_t_strict:
  assumes "t (run2 ps es) < 2 ^ 49" and "1 / 16 \<le> speed (run2 ps es)"
  shows "t (run2 ps es) < t (run2 ps (es @ [Frame]))"
proof -
  from run2_t_double [of ps es] assms
  have "t (run2 ps es) < double (t (run2 ps es) + speed (run2 ps es))"
    by (intro double_step_strict) simp_all
  then show ?thesis by (simp add: run2_snoc animate2_fields)
qed

lemma animate2_empty_line:
  assumes "distinct (map name2 ps)" and "p \<in> set ps"
    and "planetMeshes2 s (name2 p) = Some m" and "orbitLines s (name2 p) = Some orbit"
    and "points orbit = []"
  shows "map_option position (planetMeshes2 (animate2 ps s) (name2 p)) = Some (NaN, NaN, NaN)"
proof -
  let ?s = "s\<lparr>sun_rotation_z := double (sun_rotation_z s + double (2 / 1000)),
              t := double (t s + speed s)\<rparr>"
  have "map_option position (planetMeshes2 (fold animate_planet2 ps ?s) (name2 p))
         = Some (from_buffer (points orbit) (orbit_index (t ?s) (points orbit)))"
    using assms(1,2) by (rule fold_animate_planet2_written) (simp_all add: assms(3,4))
  then show ?thesis
    by (simp add: animate2_def assms(5) orbit_index_empty from_buffer_def)
qed

lemmas run2_defs =
  run2_def boot2_def init2_def planets2_def mk_planet2_def resume_def orbit_point_def
  scenario_samples_def coord_def

text \<open>The first planet of the table, while and after its file arrives.\<close>

lemma load_from_lines [simp]: "orbitLines (load_from ps s) = orbitLines s"
  by (cases ps) simp_all



lemma planets2_distinct: "distinct (map name2 planets2)"
  by (simp add: planets2_def mk_planet2_def)

lemma hd_planets2: "hd planets2 \<in> set planets2" "name2 (hd planets2) = ''mercury''"
  by (simp_all add: planets2_def mk_planet2_def)


lemma mercury_mesh_boot:
  "planetMeshes2 (boot2 planets2) ''mercury''
   = Some \<lparr>position = (Num 0, Num 0, Num 0), rotation_z = 34 / 1000,
            userData_rotationSpeed = 4 / 1000, clouds_rotation_z = None\<rparr>"
  by (simp add: boot2_def animate2_unloaded init2_def planets2_def mk_planet2_def)

lemma mercury_loaded:
  "planetMeshes2 (run2 planets2 [Response (Inr data)]) ''mercury''
     = planetMeshes2 (boot2 planets2) ''mercury''"
  by (simp add: run2_def boot2_def init2_def planets2_def mk_planet2_def resume_def
      split: sum.splits)


lemma mercury_empty_line:
  "orbitLines (run2 planets2 [Response (Inr [])]) ''mercury''
   = Some \<lparr>points = [], visible = True\<rparr>"
  by (simp add: run2_defs)

section \<open>The claims of the specification\<close>

subsection \<open>C1: the position a frame sets\<close>




subsection \<open>C2: the index is in range\<close>

text \<open>
  Claim C2. For a non-empty stored array of length \<open>L\<close> and a frame counter \<open>f \<ge> 0\<close>, the
  index \<open>Math.floor(f) % L\<close> is a number (not NaN), is \<open>\<lfloor>f\<rfloor> mod L\<close>, and lies in
  \<open>[0, L)\<close>; so the read \<open>positions[idx]\<close> is the element of the array at that index.
\<close>

theorem sample_index_in_bounds:
  assumes "positions \<noteq> []" and "0 \<le> f"
  shows "\<exists>i. sample_index f positions = Some i \<and> 0 \<le> i \<and> i < int (length positions)
           \<and> i = \<lfloor>f\<rfloor> mod int (length positions)
           \<and> js_index positions (Some i) = positions ! nat i"
proof -
  let ?i = "\<lfloor>f\<rfloor> mod int (length positions)"
  from assms(1) have len: "0 < int (length positions)" by simp
  from assms(2) have "0 \<le> \<lfloor>f\<rfloor>" by simp
  with len have "js_rem \<lfloor>f\<rfloor> (int (length positions)) = Some ?i"
    by (intro js_rem_nonneg)
  then have idx: "sample_index f positions = Some ?i"
    by (simp add: sample_index_def)
  from len have lo: "0 \<le> ?i" by (rule pos_mod_sign)
  from len have hi: "?i < int (length positions)" by (rule pos_mod_bound)
  from lo hi have "js_index positions (Some ?i) = positions ! nat ?i"
    by (simp add: js_index_def)
  with idx lo hi show ?thesis by blast
qed

theorem sample_index_in_bounds_witness:
  "scenario_samples \<noteq> [] \<and> (0::real) \<le> 7 / 2
   \<and> sample_index (7 / 2) scenario_samples = Some 0
   \<and> js_index scenario_samples (Some 0) = Entry (Some [0, 0, 0])"
  using sample_index_in_bounds [of scenario_samples "7 / 2"]
  by (simp add: scenario_samples_def)
subsection \<open>C3: a body without samples is skipped\<close>

text \<open>
  Claim C3, as amended. In the frame-index player, a body whose key in \<open>planetPositions\<close>
  is absent (its file has not arrived, or its load failed) or holds the empty array is
  skipped: the loop body returns the state as it is, without an exception, and after any
  number \<open>k\<close> of frames the mesh is where it was. The index is computed behind the test
  \<open>positions.length > 0\<close>, and \<open>Math.floor(f) % positions.length\<close> is NaN (a remainder
  by zero) for the empty array only. In the orbit-line player, a body without an orbit
  line (its file has not arrived, or \<open>loadPlanets\<close> has ended before it) is skipped in the
  same way: the loop body returns the state as it is, and \<open>k\<close> frames leave its mesh as
  it was.
\<close>

theorem empty_series_skipped:
  "(planetPositions s n = None \<or> planetPositions s n = Some [] \<longrightarrow>
      (\<forall>p. name p = n \<longrightarrow> animate_planet p s = Inr s)
      \<and> (\<exists>s'. frames step ps k s = Inr s' \<and> planetMeshes s' n = planetMeshes s n))
   \<and> (sample_index f positions = None \<longleftrightarrow> positions = [])
   \<and> (orbitLines s2 n2 = None \<longrightarrow>
      (\<forall>p. name2 p = n2 \<longrightarrow> animate_planet2 p s2 = s2)
      \<and> planetMeshes2 ((animate2 ps2 ^^ k) s2) n2 = planetMeshes2 s2 n2)"
proof (intro conjI impI allI)
  fix p :: planet
  assume "planetPositions s n = None \<or> planetPositions s n = Some []" and "name p = n"
  then have "planet_target p (frameIndex s) (planetPositions s) = None"
    by (intro planet_target_empty) simp
  then show "animate_planet p s = Inr s" by (simp add: animate_planet_skip)
next
  assume "planetPositions s n = None \<or> planetPositions s n = Some []"
  from frames_empty_series [OF this, of step ps k]
  show "\<exists>s'. frames step ps k s = Inr s' \<and> planetMeshes s' n = planetMeshes s n" by blast
next
  show "(sample_index f positions = None) = (positions = [])"
    by (rule sample_index_NaN_iff)
next
  fix p :: planet2
  assume "orbitLines s2 n2 = None" and "name2 p = n2"
  then show "animate_planet2 p s2 = s2" by (simp add: animate_planet2_meshes)
next
  assume "orbitLines s2 n2 = None"
  then show "planetMeshes2 ((animate2 ps2 ^^ k) s2) n2 = planetMeshes2 s2 n2"
    by (simp add: funpow_animate2_unloaded)
qed

theorem empty_series_skipped_witness:
  "animate_planet (scenario_planet 1) (init [scenario_planet 1]) = Inr (init [scenario_planet 1])
   \<and> (\<exists>s'. frames 1 [scenario_planet 1] 3 (init [scenario_planet 1]) = Inr s'
          \<and> planetMeshes s' ''Body'' = Some (Num 0, Num 0, Num 0))
   \<and> animate_planet2 (hd planets2) (boot2 planets2) = boot2 planets2
   \<and> map_option position
        (planetMeshes2 ((animate2 planets2 ^^ 3) (boot2 planets2)) ''mercury'')
      = Some (Num 0, Num 0, Num 0)"
proof -
  have a: "planetPositions (init [scenario_planet 1]) ''Body'' = None"
    and m: "planetMeshes (init [scenario_planet 1]) ''Body'' = Some (Num 0, Num 0, Num 0)"
    by (simp_all add: init_scenario)
  have b: "orbitLines (boot2 planets2) ''mercury'' = None"
    by (rule boot2_unloaded)
  have c: "map_option position (planetMeshes2 (boot2 planets2) ''mercury'')
      = Some (Num 0, Num 0, Num 0)"
    by (simp only: mercury_mesh_boot) simp
  from empty_series_skipped [of "init [scenario_planet 1]" "''Body''" 1 "[scenario_planet 1]" 3
      0 "[]" "boot2 planets2" "''mercury''" planets2] a b m c hd_planets2(2)
  show ?thesis by auto
qed

text \<open>
  The claim as stated fails in the orbit-line player for a body whose orbit line has no
  vertex: its loop has the test \<open>if (orbit)\<close> and no test of \<open>position.count\<close>. When
  mercury's file is the empty array, its line has no vertex, \<open>(t / 2) % position.count\<close>
  is a remainder by zero, and the first frame after the file moves the mesh from
  \<open>(0,0,0)\<close> to a position without a number.
\<close>

theorem empty_line_counterexample:
  "line_count (run2 planets2 [Response (Inr [])]) ''mercury'' = Some 0
   \<and> orbit_index (t (run2 planets2 [Response (Inr []), Frame])) [] = None
   \<and> map_option position (planetMeshes2 (run2 planets2 [Response (Inr [])]) ''mercury'')
      = Some (Num 0, Num 0, Num 0)
   \<and> map_option position
        (planetMeshes2 (run2 planets2 [Response (Inr []), Frame]) ''mercury'')
      = Some (NaN, NaN, NaN)"
proof -
  let ?s = "run2 planets2 [Response (Inr [])]"
  define p where "p = hd planets2"
  define orbit where "orbit = \<lparr>points = ([] :: vec3 list), visible = True\<rparr>"
  have p: "p \<in> set planets2" "name2 p = ''mercury''"
    unfolding p_def by (rule hd_planets2)+
  have before: "map_option position (planetMeshes2 ?s ''mercury'') = Some (Num 0, Num 0, Num 0)"
    by (simp only: mercury_loaded mercury_mesh_boot) simp
  then obtain m where mesh: "planetMeshes2 ?s (name2 p) = Some m"
    by (auto simp: p(2))
  have line: "orbitLines ?s (name2 p) = Some orbit"
    unfolding orbit_def by (simp only: p mercury_empty_line)
  have count: "line_count ?s ''mercury'' = Some 0"
    using line by (simp add: p(2) line_count_def orbit_def)
  have next_frame: "run2 planets2 [Response (Inr []), Frame] = animate2 planets2 ?s"
    by (simp add: run2_def)
  have "map_option position (planetMeshes2 (animate2 planets2 ?s) (name2 p))
        = Some (NaN, NaN, NaN)"
    using planets2_distinct p(1) mesh line by (rule animate2_empty_line) (simp add: orbit_def)
  then have after: "map_option position
        (planetMeshes2 (run2 planets2 [Response (Inr []), Frame]) ''mercury'')
      = Some (NaN, NaN, NaN)"
    by (simp only: next_frame p(2))
  from count before after show ?thesis by (simp add: orbit_index_empty)
qed

subsection \<open>C4: what the loader stores\<close>

text \<open>
  Claim C4, as amended. The loader of the frame-index player stores the parsed file as
  it is: for a file of \<open>N\<close> records, the array in \<open>planetPositions\<close> (the one \<open>animate\<close>
  indexes) is the file itself, with all \<open>N\<close> records. Only the orbit line is built from
  the filtered records: its points are the records whose \<open>pos\<close> is an array of exactly
  three numbers, in order, each coordinate multiplied by \<open>ORBIT_SCALE\<close>, and there are
  \<open>N - M\<close> of them, where \<open>M\<close> counts the records that fail the test (\<open>null\<close>, no \<open>pos\<close>,
  or a \<open>pos\<close> of another length).
\<close>

theorem loader_stores_raw_file:
  "\<exists>pts. planetPositions (planet_promise p (Inr data) s) (name p) = Some data
     \<and> orbitPath (planet_promise p (Inr data) s) (name p) = Some pts
     \<and> list_all2 (\<lambda>e v. \<exists>x y z. e = Entry (Some [x, y, z])
            \<and> v = (Num (x * ORBIT_SCALE p), Num (y * ORBIT_SCALE p), Num (z * ORBIT_SCALE p)))
         (filter has_pos3 data) pts
     \<and> length pts = length data - length (filter (\<lambda>e. \<not> has_pos3 e) data)"
proof -
  from map_err_scaled [of "ORBIT_SCALE p" data] obtain pts
    where pts: "map_err (scaled_point (ORBIT_SCALE p)) (filter has_pos3 data) = Inr pts"
    and rel: "list_all2 (\<lambda>e v. \<exists>x y z. e = Entry (Some [x, y, z])
            \<and> v = (Num (x * ORBIT_SCALE p), Num (y * ORBIT_SCALE p), Num (z * ORBIT_SCALE p)))
         (filter has_pos3 data) pts"
    by blast
  from rel have "length pts = length (filter has_pos3 data)"
    by (simp add: list_all2_lengthD)
  moreover have "length (filter has_pos3 data) + length (filter (\<lambda>e. \<not> has_pos3 e) data)
                 = length data"
    by (rule sum_length_filter_compl)
  ultimately have len: "length pts = length data - length (filter (\<lambda>e. \<not> has_pos3 e) data)"
    by simp
  from pts rel len show ?thesis
    by (simp add: planet_promise_positions planet_promise_orbit)
qed

theorem loader_stores_raw_file_witness:
  "planetPositions (scenario_state short_record_file 1) ''Body'' = Some short_record_file
   \<and> orbitPath (scenario_state short_record_file 1) ''Body'' = Some [(Num 1, Num 2, Num 3)]"
  using loader_stores_raw_file [of "scenario_planet 1" short_record_file "init [scenario_planet 1]"]
  by (simp add: scenario_defs)

text \<open>
  The claim as stated (the stored sequence has \<open>N - M\<close> samples) fails for the file of
  two records of which one has two coordinates: \<open>N = 2\<close>, \<open>M = 1\<close>, and the stored array
  has two elements.
\<close>

theorem stored_sequence_counterexample:
  "length short_record_file = 2
   \<and> length (filter (\<lambda>e. \<not> has_pos3 e) short_record_file) = 1
   \<and> map_option length
        (planetPositions (scenario_state short_record_file 1) ''Body'') \<noteq> Some (2 - 1)"
  by (simp add: scenario_defs)

subsection \<open>C5: a failed load\<close>

text \<open>
  Claim C5, as amended. In the loader of the frame-index player, a rejected fetch or
  parse of one planet's file changes nothing but the console, where the \<open>catch\<close>
  callback reports it. Settling the promise of a planet \<open>p\<close>, with a failure or with a
  file, leaves the stored array and the orbit line of every other name and all meshes
  as they were. After any sequence \<open>rs\<close> of settled promises, in any order, the stored
  array and the orbit line of a name \<open>n\<close> are what the responses for \<open>n\<close> alone give; a
  name all of whose responses are failures keeps the stored array it had (none, when it
  starts from the initial state). Every promise is fulfilled, so the animation starts,
  and any number of frames ends without an exception and leaves the stored arrays as
  the loader left them.
\<close>

theorem load_failure_isolated:
  "planet_promise p (Inl err) s = s\<lparr>console := console s @ [LoadError (name p) err]\<rparr>
   \<and> (n \<noteq> name p \<longrightarrow>
        planetPositions (planet_promise p r s) n = planetPositions s n
        \<and> orbitPath (planet_promise p r s) n = orbitPath s n)
   \<and> planetMeshes (planet_promise p r s) = planetMeshes s
   \<and> planetPositions (settle rs s) n
       = planetPositions (settle (filter (\<lambda>(q, r'). name q = n) rs) s) n
   \<and> orbitPath (settle rs s) n
       = orbitPath (settle (filter (\<lambda>(q, r'). name q = n) rs) s) n
   \<and> ((\<forall>(q, r')\<in>set rs. name q = n \<longrightarrow> isl r') \<longrightarrow>
        planetPositions (settle rs s) n = planetPositions s n)
   \<and> (\<exists>s'. frames step ps k (all_settled (settle rs s)) = Inr s'
          \<and> planetPositions s' = planetPositions (settle rs s))"
proof -
  have 1: "planet_promise p (Inl err) s = s\<lparr>console := console s @ [LoadError (name p) err]\<rparr>"
    by (simp add: planet_promise_def)
  have 2: "n \<noteq> name p \<longrightarrow>
        planetPositions (planet_promise p r s) n = planetPositions s n
        \<and> orbitPath (planet_promise p r s) n = orbitPath s n"
    by (auto simp: planet_promise_positions planet_promise_orbit)
  have 3: "planetMeshes (planet_promise p r s) = planetMeshes s" by simp
  note 4 = settle_own_responses [of rs s n]
  have 5: "(\<forall>(q, r')\<in>set rs. name q = n \<longrightarrow> isl r') \<longrightarrow>
        planetPositions (settle rs s) n = planetPositions s n"
    by (simp add: settle_failures)
  from frames_positions [of step ps k "all_settled (settle rs s)"]
  have 6: "\<exists>s'. frames step ps k (all_settled (settle rs s)) = Inr s'
          \<and> planetPositions s' = planetPositions (settle rs s)"
    by (simp add: all_settled_def)
  from 1 2 3 4 5 6 show ?thesis by blast
qed

theorem load_failure_isolated_witness:
  "planetPositions
     (settle [(scenario_planet 1, Inl NetworkError),
              (mk_planet ''Other'' ''other.json'' 1 0 1, Inr scenario_samples)]
        (init [scenario_planet 1, mk_planet ''Other'' ''other.json'' 1 0 1])) ''Other''
   = Some scenario_samples
   \<and> planetPositions
     (settle [(scenario_planet 1, Inl NetworkError),
              (mk_planet ''Other'' ''other.json'' 1 0 1, Inr scenario_samples)]
        (init [scenario_planet 1, mk_planet ''Other'' ''other.json'' 1 0 1])) ''Body''
   = None"
  using load_failure_isolated [of "scenario_planet 1" NetworkError
      "init [scenario_planet 1, mk_planet ''Other'' ''other.json'' 1 0 1]" "''Other''"
      "Inl NetworkError"
      "[(scenario_planet 1, Inl NetworkError),
        (mk_planet ''Other'' ''other.json'' 1 0 1, Inr scenario_samples)]" 1 "[]" 0]
    load_failure_isolated [of "scenario_planet 1" NetworkError
      "init [scenario_planet 1, mk_planet ''Other'' ''other.json'' 1 0 1]" "''Body''"
      "Inl NetworkError"
      "[(scenario_planet 1, Inl NetworkError),
        (mk_planet ''Other'' ''other.json'' 1 0 1, Inr scenario_samples)]" 1 "[]" 0]
  by (simp add: settle_def planet_promise_positions init_def create_planet_def mk_planet_def)

text \<open>
  The claim as stated also names \<open>loadPlanets\<close> of the orbit-line player, where it
  fails: the files are awaited one after the other and nothing catches a rejection. When
  the first file (mercury) fails, \<open>loadPlanets\<close> ends there; venus never gets a mesh or an
  orbit line, whatever arrives later, while it gets both when the first file loads.
\<close>

theorem sequential_load_counterexample:
  "loadPlanets_at (run2 planets2 [Response (Inl NetworkError)]) = Rejected NetworkError
   \<and> orbitLines (run2 planets2
         [Response (Inl NetworkError), Response (Inr scenario_samples), Frame]) ''venus'' = None
   \<and> planetMeshes2 (run2 planets2
         [Response (Inl NetworkError), Response (Inr scenario_samples), Frame]) ''venus'' = None
   \<and> orbitLines (run2 planets2
         [Response (Inr scenario_samples), Response (Inr scenario_samples), Frame]) ''venus''
       \<noteq> None"
  by (simp add: run2_defs animate2_dom)

subsection \<open>C6: playback wraps\<close>

text \<open>
  Claim C6. For a non-empty stored array of length \<open>L\<close> and a frame counter \<open>f \<ge> 0\<close>, the
  index at \<open>f + k * L\<close> is the index at \<open>f\<close>, for every \<open>k\<close>. With the samples \<open>[0,0,0]\<close>,
  \<open>[10,0,0]\<close>, \<open>[20,0,0]\<close>, the scale 1, the step 1 and the counter starting at 0, the
  first four frames set the positions \<open>(0,0,0)\<close>, \<open>(10,0,0)\<close>, \<open>(20,0,0)\<close>, \<open>(0,0,0)\<close>.
\<close>

theorem playback_wraps:
  "(0 \<le> f \<and> positions \<noteq> [] \<longrightarrow>
      sample_index (f + real (k * length positions)) positions = sample_index f positions)
   \<and> map (position_after scenario_samples 1 1) [1, 2, 3, 4]
       = [Some (Num 0, Num 0, Num 0), Some (Num 10, Num 0, Num 0),
          Some (Num 20, Num 0, Num 0), Some (Num 0, Num 0, Num 0)]"
proof
  show "0 \<le> f \<and> positions \<noteq> [] \<longrightarrow>
      sample_index (f + real (k * length positions)) positions = sample_index f positions"
  proof
    assume a: "0 \<le> f \<and> positions \<noteq> []"
    have "\<lfloor>f + real (k * length positions)\<rfloor> = \<lfloor>f\<rfloor> + int k * int (length positions)"
      by (metis floor_add_int of_int_of_nat_eq of_nat_mult)
    moreover have "0 \<le> f + real (k * length positions)" using a by simp
    ultimately show "sample_index (f + real (k * length positions)) positions
                     = sample_index f positions"
      using a by (simp add: sample_index_nonneg)
  qed
  show "map (position_after scenario_samples 1 1) [1, 2, 3, 4]
       = [Some (Num 0, Num 0, Num 0), Some (Num 10, Num 0, Num 0),
          Some (Num 20, Num 0, Num 0), Some (Num 0, Num 0, Num 0)]"
    by (simp add: scenario_defs frame_defs eval_nat_numeral)
qed

theorem playback_wraps_witness:
  "sample_index (7 / 2 + real (2 * length scenario_samples)) scenario_samples = Some 0
   \<and> sample_index (7 / 2) scenario_samples = Some 0"
  using playback_wraps [of "7 / 2" scenario_samples 2]
  by (simp add: scenario_samples_def sample_index_def js_rem_def)

subsection \<open>C7: the frame counter increases\<close>

text \<open>
  Claim C7, as amended. Every frame adds to the frame counter, in the arithmetic of
  doubles, a step that is not derived from a measured time, and the counter is never
  smaller after a frame than before. In the frame-index player the step is the
  constant \<open>FRAME_SPEED\<close> (the double nearest to 0.1), the same at every frame: the new
  counter is \<open>double (frameIndex + FRAME_SPEED)\<close>, and a counter that is a double and not
  negative, as it is from its start at 0, stays one, does not decrease, and is strictly
  greater after the frame while it is below \<open>2^49\<close>. In the orbit-line player the step
  is the current value of \<open>speed\<close>: the new counter is \<open>double (t + speed)\<close>; no frame,
  answer or toggle changes \<open>speed\<close>, only the speed buttons do, and in every state the
  player can reach \<open>speed\<close> is not negative, \<open>t\<close> does not decrease at the next frame,
  and \<open>t\<close> is strictly greater after the next frame while \<open>t\<close> is below \<open>2^49\<close> and
  \<open>speed\<close> is at least \<open>1/16\<close>.
\<close>

theorem frame_counter_increases:
  "(\<exists>s'. animate_frame step ps s = Inr s' \<and> frameIndex s' = double (frameIndex s + step))
   \<and> (\<exists>s'. animate s = Inr s' \<and> frameIndex s' = double (frameIndex s + FRAME_SPEED)
          \<and> (0 \<le> frameIndex s \<and> double (frameIndex s) = frameIndex s \<longrightarrow>
                frameIndex s \<le> frameIndex s' \<and> 0 \<le> frameIndex s'
                \<and> double (frameIndex s') = frameIndex s'
                \<and> (frameIndex s < 2 ^ 49 \<longrightarrow> frameIndex s < frameIndex s')))
   \<and> t (animate2 ps2 s2) = double (t s2 + speed s2)
   \<and> speed (animate2 ps2 s2) = speed s2
   \<and> speed (resume r s2) = speed s2
   \<and> speed (toggleOrbits s2) = speed s2
   \<and> 0 \<le> speed (run2 ps2 es)
   \<and> t (run2 ps2 es) \<le> t (run2 ps2 (es @ [Frame]))
   \<and> (t (run2 ps2 es) < 2 ^ 49 \<and> 1 / 16 \<le> speed (run2 ps2 es) \<longrightarrow>
        t (run2 ps2 es) < t (run2 ps2 (es @ [Frame])))"
proof -
  have step0: "0 \<le> FRAME_SPEED"
    unfolding FRAME_SPEED_def by (intro double_nonneg) simp
  have keep: "frameIndex s \<le> double (frameIndex s + FRAME_SPEED)
      \<and> 0 \<le> double (frameIndex s + FRAME_SPEED)
      \<and> double (double (frameIndex s + FRAME_SPEED)) = double (frameIndex s + FRAME_SPEED)
      \<and> (frameIndex s < 2 ^ 49 \<longrightarrow> frameIndex s < double (frameIndex s + FRAME_SPEED))"
    if "0 \<le> frameIndex s" and "double (frameIndex s) = frameIndex s"
  proof -
    from that(1) step0 have sum0: "0 \<le> frameIndex s + FRAME_SPEED" by simp
    have "double (frameIndex s) \<le> double (frameIndex s + FRAME_SPEED)"
      using that(1) step0 by (intro double_mono) simp_all
    moreover have "frameIndex s < double (frameIndex s + FRAME_SPEED)"
      if "frameIndex s < 2 ^ 49"
      using \<open>0 \<le> frameIndex s\<close> \<open>double (frameIndex s) = frameIndex s\<close> that FRAME_SPEED_lower
      by (rule double_step_strict)
    ultimately show ?thesis using that(2) sum0 by (simp add: double_nonneg double_idem)
  qed
  from animate_frame_counter [of FRAME_SPEED planets s] obtain s'
    where s': "animate s = Inr s'" "frameIndex s' = double (frameIndex s + FRAME_SPEED)"
    by (auto simp: animate_def)
  with keep have a: "\<exists>s'. animate s = Inr s' \<and> frameIndex s' = double (frameIndex s + FRAME_SPEED)
          \<and> (0 \<le> frameIndex s \<and> double (frameIndex s) = frameIndex s \<longrightarrow>
                frameIndex s \<le> frameIndex s' \<and> 0 \<le> frameIndex s'
                \<and> double (frameIndex s') = frameIndex s'
                \<and> (frameIndex s < 2 ^ 49 \<longrightarrow> frameIndex s < frameIndex s'))"
    by auto
  have strict: "t (run2 ps2 es) < 2 ^ 49 \<and> 1 / 16 \<le> speed (run2 ps2 es) \<longrightarrow>
        t (run2 ps2 es) < t (run2 ps2 (es @ [Frame]))"
    using run2_t_strict [of ps2 es] by blast
  from animate_frame_counter [of step ps s] a run2_speed_nonneg [of ps2 es]
    run2_t_mono [of ps2 es] strict
  show ?thesis by simp
qed

theorem frame_counter_increases_witness:
  "(\<exists>s'. animate (init planets) = Inr s' \<and> frameIndex (init planets) < frameIndex s')
   \<and> t (run2 planets2 [Frame, SpeedUp]) < t (run2 planets2 ([Frame, SpeedUp] @ [Frame]))"
proof -
  have z: "frameIndex (init planets) = 0" by (simp add: init_def init_frameIndex)
  have u: "t (run2 planets2 [Frame, SpeedUp]) = 2" "speed (run2 planets2 [Frame, SpeedUp]) = 3 / 2"
    by (simp_all add: run2_def)
  from frame_counter_increases [where s = "init planets" and ?ps2.0 = planets2
      and es = "[Frame, SpeedUp]"] z u
  show ?thesis by auto
qed

text \<open>
  The claim as stated fails in both of its parts. The increment is not the same at
  every frame of the orbit-line player: the frame after the script's first one adds 1
  to \<open>t\<close>, and after a click on the speed-up button the next frame adds 1.5. The counter
  is not strictly greater after every frame: in the orbit-line player, after 103 clicks
  on the speed-down button the next frame leaves \<open>t\<close> at 1, the sum \<open>1 + speed\<close> being
  rounded to 1; in the frame-index player a frame at the counter \<open>2^53\<close> leaves the
  counter at \<open>2^53\<close>.
\<close>

theorem speed_changes_step_counterexample:
  "t (run2 planets2 [Frame]) - t (run2 planets2 []) = 1
   \<and> t (run2 planets2 [Frame, SpeedUp, Frame]) - t (run2 planets2 [Frame, SpeedUp]) = 3 / 2
   \<and> t (run2 planets2 (replicate 103 SpeedDown @ [Frame]))
       = t (run2 planets2 (replicate 103 SpeedDown))
   \<and> frameIndex_after ((init planets)\<lparr>frameIndex := 2 ^ 53\<rparr>) = Some (2 ^ 53)"
proof -
  have "t (run2 planets2 (replicate 103 SpeedDown @ [Frame])) = 1"
    by (rule run2_stalls)
  moreover have "t (run2 planets2 (replicate 103 SpeedDown)) = 1"
    using run2_speed_downs [of planets2 103] by simp
  moreover have "t (run2 planets2 [Frame]) - t (run2 planets2 []) = 1"
    by (simp add: run2_def)
  moreover have "t (run2 planets2 [Frame, SpeedUp, Frame])
      - t (run2 planets2 [Frame, SpeedUp]) = 3 / 2"
    by (simp add: run2_def)
  moreover have "frameIndex_after ((init planets)\<lparr>frameIndex := 2 ^ 53\<rparr>) = Some (2 ^ 53)"
  proof -
    define s where "s = (init planets)\<lparr>frameIndex := 2 ^ 53\<rparr>"
    have f: "frameIndex s = 2 ^ 53" by (simp add: s_def)
    from animate_frame_counter [of FRAME_SPEED planets s] obtain s'
      where s': "animate s = Inr s'" "frameIndex s' = double (frameIndex s + FRAME_SPEED)"
      by (auto simp: animate_def)
    have "0 \<le> FRAME_SPEED" using FRAME_SPEED_lower by simp
    then have "double (2 ^ 53 + FRAME_SPEED) = 2 ^ 53"
      using FRAME_SPEED_upper by (rule double_stall_big)
    with s' f have "frameIndex_after s = Some (2 ^ 53)"
      by (simp only: frameIndex_after_def sum.case)
    then show ?thesis by (simp only: s_def)
  qed
  ultimately show ?thesis by simp
qed

subsection \<open>C8: a frame is deterministic\<close>

text \<open>
  Claim C8. Take two states of the frame-index player with the same frame counter and
  the same stored arrays, with meshes for the same names, and the same planet table
  (hence the same scale factors); the positions of the meshes before the frame may
  differ. Both frames end without an exception, and for every name the position after
  the frame is the same in both states, or the frame has set no position for that name
  in either state (each mesh is where it was before).
\<close>

theorem frame_deterministic:
  assumes "frameIndex s1 = frameIndex s2" and "planetPositions s1 = planetPositions s2"
    and "dom (planetMeshes s1) = dom (planetMeshes s2)"
  shows "\<exists>s1' s2'. animate_frame step ps s1 = Inr s1' \<and> animate_frame step ps s2 = Inr s2'
           \<and> (\<forall>n. planetMeshes s1' n = planetMeshes s2' n
                  \<or> (planetMeshes s1' n = planetMeshes s1 n
                      \<and> planetMeshes s2' n = planetMeshes s2 n))"
proof -
  obtain s1' where s1': "animate_frame step ps s1 = Inr s1'"
    using animate_frame_total by blast
  obtain s2' where s2': "animate_frame step ps s2 = Inr s2'"
    using animate_frame_total by blast
  from s1' obtain u1 where u1: "for_each animate_planet ps s1 = Inr u1"
    and e1: "s1' = u1\<lparr>frameIndex := double (frameIndex u1 + step)\<rparr>"
    using animate_frame_Inr by blast
  from s2' obtain u2 where u2: "for_each animate_planet ps s2 = Inr u2"
    and e2: "s2' = u2\<lparr>frameIndex := double (frameIndex u2 + step)\<rparr>"
    using animate_frame_Inr by blast
  have same_dom: "\<forall>n. (planetMeshes s1 n = None) = (planetMeshes s2 n = None)"
    using assms(3) by (metis domIff)
  have start: "\<forall>n. planetMeshes s1 n = planetMeshes s2 n
            \<or> (planetMeshes s1 n = planetMeshes s1 n \<and> planetMeshes s2 n = planetMeshes s2 n)"
    by simp
  from for_each_deterministic [OF assms(1,2) same_dom start u1 u2] s1' s2' e1 e2
  show ?thesis by simp
qed

theorem frame_deterministic_witness:
  "\<exists>s1' s2'.
     animate_frame 1 [scenario_planet 1] (scenario_state scenario_samples 1) = Inr s1'
     \<and> animate_frame 1 [scenario_planet 1]
          ((scenario_state scenario_samples 1)
             \<lparr>planetMeshes := [''Body'' \<mapsto> (Num 7, Num 7, Num 7)]\<rparr>) = Inr s2'
     \<and> (\<forall>n. planetMeshes s1' n = planetMeshes s2' n
            \<or> (planetMeshes s1' n = planetMeshes (scenario_state scenario_samples 1) n
                \<and> planetMeshes s2' n = [''Body'' \<mapsto> (Num 7, Num 7, Num 7)] n))"
  using frame_deterministic [of "scenario_state scenario_samples 1"
      "(scenario_state scenario_samples 1)
         \<lparr>planetMeshes := [''Body'' \<mapsto> (Num 7, Num 7, Num 7)]\<rparr>" 1 "[scenario_planet 1]"]
  by (simp add: scenario_defs)

subsection \<open>C9: a malformed entry\<close>



subsection \<open>C10: the toggle-orbits button\<close>

text \<open>
  Claim C10, as amended. A click on the toggle-orbits button flips \<open>orbitsVisible\<close> and
  sets the \<open>visible\<close> flag of every orbit line to the new value; it changes no point of a
  line, no mesh (so no planet's position), not \<open>t\<close> and not \<open>speed\<close>. Two clicks in
  succession restore \<open>orbitsVisible\<close>, and restore every orbit line whose flag was equal
  to \<open>orbitsVisible\<close> before the first click.
\<close>

theorem toggle_twice:
  "orbitsVisible (toggleOrbits s) = (\<not> orbitsVisible s)
   \<and> orbitsVisible (toggleOrbits (toggleOrbits s)) = orbitsVisible s
   \<and> (\<forall>n l. orbitLines (toggleOrbits s) n = Some l \<longrightarrow>
          visible l = orbitsVisible (toggleOrbits s))
   \<and> (\<forall>n l. orbitLines s n = Some l \<and> visible l = orbitsVisible s \<longrightarrow>
          orbitLines (toggleOrbits (toggleOrbits s)) n = Some l)
   \<and> (\<forall>n. map_option points (orbitLines (toggleOrbits s) n) = map_option points (orbitLines s n))
   \<and> planetMeshes2 (toggleOrbits s) = planetMeshes2 s
   \<and> t (toggleOrbits s) = t s
   \<and> speed (toggleOrbits s) = speed s"
proof -
  have once: "orbitsVisible (toggleOrbits s) = (\<not> orbitsVisible s)"
    by simp
  have flip: "orbitsVisible (toggleOrbits (toggleOrbits s)) = orbitsVisible s"
    by simp
  have follow: "\<forall>n l. orbitLines (toggleOrbits s) n = Some l \<longrightarrow>
      visible l = orbitsVisible (toggleOrbits s)"
    by auto
  have restore: "\<forall>n l. orbitLines s n = Some l \<and> visible l = orbitsVisible s \<longrightarrow>
      orbitLines (toggleOrbits (toggleOrbits s)) n = Some l"
    by auto
  have pts: "\<forall>n. map_option points (orbitLines (toggleOrbits s) n)
      = map_option points (orbitLines s n)"
    by (simp add: option.map_comp comp_def)
  from once flip follow restore pts show ?thesis by simp
qed

theorem toggle_twice_witness:
  "orbitsVisible (run2 planets2 [Response (Inr scenario_samples)]) = True
   \<and> map_option visible
        (orbitLines (run2 planets2 [Response (Inr scenario_samples)]) ''mercury'') = Some True
   \<and> orbitsVisible (toggleOrbits (run2 planets2 [Response (Inr scenario_samples)])) = False
   \<and> map_option visible
        (orbitLines (toggleOrbits (run2 planets2 [Response (Inr scenario_samples)])) ''mercury'')
      = Some False
   \<and> orbitLines (toggleOrbits (toggleOrbits
        (run2 planets2 [Response (Inr scenario_samples)]))) ''mercury''
      = orbitLines (run2 planets2 [Response (Inr scenario_samples)]) ''mercury''
   \<and> line_count (toggleOrbits (run2 planets2 [Response (Inr scenario_samples)])) ''mercury''
      = Some 3"
  using toggle_twice [of "run2 planets2 [Response (Inr scenario_samples)]"]
  by (simp add: run2_defs line_count_def)

text \<open>
  The claim as stated (two clicks restore the flag of every line) fails for a line
  that was made while the orbits were hidden: a new line is visible whatever
  \<open>orbitsVisible\<close> is. After a click (orbits hidden) and the arrival of mercury's file,
  mercury's line is visible; two more clicks leave it hidden.
\<close>

theorem late_line_counterexample:
  "orbitsVisible (run2 planets2 [ToggleOrbits, Response (Inr scenario_samples)]) = False
   \<and> map_option visible
        (orbitLines (run2 planets2 [ToggleOrbits, Response (Inr scenario_samples)]) ''mercury'')
      = Some True
   \<and> map_option visible
        (orbitLines (run2 planets2 [ToggleOrbits, Response (Inr scenario_samples),
                                    ToggleOrbits, ToggleOrbits]) ''mercury'')
      = Some False"
  by (simp add: run2_defs)

end
